theory Spec2Isabelle
  imports Complex_Main "HOL-Library.AList"
begin

section \<open>Messages, errors and the reasoning oracle\<close>

text \<open>
  The program is \<^verbatim>\<open>agent_blueprint.py\<close>: four agent graphs (ReAct, Plan-Execute,
  Self-Reflection, Multi-Agent) built on a graph engine. A message is one of the four
  message classes the program uses. Only an \<^verbatim>\<open>AIMessage\<close> has the attribute
  \<^verbatim>\<open>tool_calls\<close>; it is a list of tool-invocation requests, empty for a plain answer.
\<close>

datatype py_error =
    IndexError
  | ValueError
  | AttributeError
  | InvalidRouteError string
  | UnknownNodeError string

record tool_call =
  tc_name :: string
  tc_args :: "(string \<times> string) list"
  tc_id :: string

datatype message =
    SystemMessage string
  | HumanMessage string
  | AIMessage string "tool_call list"
  | ToolMessage string string

fun content :: "message \<Rightarrow> string" where
  "content (SystemMessage c) = c"
| "content (HumanMessage c) = c"
| "content (AIMessage c tcs) = c"
| "content (ToolMessage c call_id) = c"

text \<open>
  \<^verbatim>\<open>hasattr(last_message, "tool_calls") and last_message.tool_calls\<close>: true exactly for
  an \<^verbatim>\<open>AIMessage\<close> whose list of requests is not empty.
\<close>

fun has_tool_calls :: "message \<Rightarrow> bool" where
  "has_tool_calls (AIMessage c tcs) = (tcs \<noteq> [])"
| "has_tool_calls m = False"

text \<open>\<^verbatim>\<open>messages[-1]\<close> raises \<^verbatim>\<open>IndexError\<close> on an empty list.\<close>

definition last_message :: "message list \<Rightarrow> py_error + message" where
  "last_message ms = (if ms = [] then Inl IndexError else Inr (last ms))"

text \<open>
  The reasoning oracle is outside the program. \<^verbatim>\<open>llm.invoke\<close> (no tool catalogue bound)
  returns a plain textual completion; \<^verbatim>\<open>llm_with_tools.invoke\<close> returns a text together
  with a list of tool-invocation requests, possibly empty. Each node builds its prompt from
  the state it is given, so an oracle is modelled as a function of the name of the calling
  node and of that state: the message history grows with every node execution, so every
  sequence of replies is the behaviour of such a function. The prompt texts themselves
  are not modelled.
\<close>

type_synonym 's llm = "string \<Rightarrow> 's \<Rightarrow> string"
type_synonym 's llm_with_tools = "string \<Rightarrow> 's \<Rightarrow> string \<times> tool_call list"

definition plain_reply :: "string \<Rightarrow> message" where
  "plain_reply c = AIMessage c []"

definition tools_reply :: "string \<times> tool_call list \<Rightarrow> message" where
  "tools_reply r = AIMessage (fst r) (snd r)"

text \<open>
  Modelled from the spec: the ToolDispatcher (\<^verbatim>\<open>ToolNode(tools)\<close> of the graph library, not
  under src/). It reads the requests of the last message, runs each tool and returns one
  tool-result message per request, in request order, tagged with the request's identifier.
  The tools of the program are mocks over random numbers, so their output is a parameter.
\<close>

definition tool_node :: "(tool_call \<Rightarrow> string) \<Rightarrow> message list \<Rightarrow> py_error + message list" where
  "tool_node run_tool ms =
     (case last_message ms of
        Inl e \<Rightarrow> Inl ValueError
      | Inr (AIMessage c tcs) \<Rightarrow> Inr (map (\<lambda>tc. ToolMessage (run_tool tc) (tc_id tc)) tcs)
      | Inr m \<Rightarrow> Inl ValueError)"

section \<open>The graph engine\<close>

text \<open>
  Modelled from the spec: the StateContainer reducer, the GraphDefinition and the Executor
  (\<^verbatim>\<open>StateGraph\<close>, \<^verbatim>\<open>add_node\<close>, \<^verbatim>\<open>add_edge\<close>, \<^verbatim>\<open>add_conditional_edges\<close> and \<^verbatim>\<open>invoke\<close> of the
  graph library, not under src/). A node returns a partial update: a dictionary, modelled
  as the list of its items in the order written. Applying it merges the items one by one
  with the merge policy of each field. A node's outgoing edge is fixed, or conditional: a
  router and the mapping from the router's results to destinations. A router result that
  the mapping does not hold is an \<^verbatim>\<open>InvalidRouteError\<close>. The run stops at \<^verbatim>\<open>END\<close>, at the
  first error, or when the step budget is used up.
\<close>

definition START :: string where
  "START = ''__start__''"

definition END :: string where
  "END = ''__end__''"

datatype 's edge =
    Fixed string
  | Conditional "'s \<Rightarrow> py_error + string" "(string \<times> string) list"

record ('s, 'f) state_graph =
  sg_nodes :: "(string \<times> ('s \<Rightarrow> py_error + 'f list)) list"
  sg_edges :: "(string \<times> 's edge) list"
  sg_merge :: "'s \<Rightarrow> 'f \<Rightarrow> 's"

text \<open>
  Modelled from the spec: \<^verbatim>\<open>apply(state, partial)\<close> of the StateContainer (the reducer of the
  graph library, not under src/). Each field present in the partial is merged into the
  state by the field's policy; a field the partial does not name is not touched. The merge
  function of a pattern gives the policy of each field, as the pattern's \<^verbatim>\<open>TypedDict\<close>
  declares it. A partial is a list of fields of the pattern's schema, so it cannot name an
  unknown field.
\<close>

definition apply_update :: "('s \<Rightarrow> 'f \<Rightarrow> 's) \<Rightarrow> 's \<Rightarrow> 'f list \<Rightarrow> 's" where
  "apply_update merge s partial = fold (\<lambda>f acc. merge acc f) partial s"

definition next_node :: "('s, 'f) state_graph \<Rightarrow> string \<Rightarrow> 's \<Rightarrow> py_error + string" where
  "next_node g n s =
     (case map_of (sg_edges g) n of
        None \<Rightarrow> Inl (InvalidRouteError n)
      | Some (Fixed d) \<Rightarrow> Inr d
      | Some (Conditional router path_map) \<Rightarrow>
          (case router s of
             Inl e \<Rightarrow> Inl e
           | Inr k \<Rightarrow>
               (case map_of path_map k of
                  None \<Rightarrow> Inl (InvalidRouteError k)
                | Some d \<Rightarrow> Inr d)))"

definition exec_node :: "('s, 'f) state_graph \<Rightarrow> string \<Rightarrow> 's \<Rightarrow> py_error + 's" where
  "exec_node g n s =
     (case map_of (sg_nodes g) n of
        None \<Rightarrow> Inl (UnknownNodeError n)
      | Some node \<Rightarrow>
          (case node s of
             Inl e \<Rightarrow> Inl e
           | Inr partial \<Rightarrow> Inr (apply_update (sg_merge g) s partial)))"

datatype 'a run_result = Done 'a | Crashed py_error | StepBudgetExceeded

text \<open>
  A run returns the final state and the trace: the nodes executed, in order, each with the
  state it was given.
\<close>

fun run :: "nat \<Rightarrow> ('s, 'f) state_graph \<Rightarrow> string \<Rightarrow> 's \<Rightarrow> ((string \<times> 's) list \<times> 's) run_result" where
  "run 0 g n s = (if n = END then Done ([], s) else StepBudgetExceeded)"
| "run (Suc budget) g n s =
     (if n = END then Done ([], s)
      else
        (case exec_node g n s of
           Inl e \<Rightarrow> Crashed e
         | Inr s' \<Rightarrow>
             (case next_node g n s' of
                Inl e \<Rightarrow> Crashed e
              | Inr d \<Rightarrow>
                  (case run budget g d s' of
                     Done (tr, fin) \<Rightarrow> Done ((n, s) # tr, fin)
                   | Crashed e \<Rightarrow> Crashed e
                   | StepBudgetExceeded \<Rightarrow> StepBudgetExceeded))))"

definition invoke :: "nat \<Rightarrow> ('s, 'f) state_graph \<Rightarrow> 's \<Rightarrow> ((string \<times> 's) list \<times> 's) run_result" where
  "invoke budget g s =
     (case next_node g START s of
        Inl e \<Rightarrow> Crashed e
      | Inr n \<Rightarrow> run budget g n s)"

definition node_names :: "(string \<times> 's) list \<Rightarrow> string list" where
  "node_names tr = map fst tr"

definition run_names :: "((string \<times> 's) list \<times> 's) run_result \<Rightarrow> string list option" where
  "run_names r =
     (case r of
        Done (tr, fin) \<Rightarrow> Some (node_names tr)
      | Crashed e \<Rightarrow> None
      | StepBudgetExceeded \<Rightarrow> None)"

definition final_state :: "((string \<times> 's) list \<times> 's) run_result \<Rightarrow> 's option" where
  "final_state r =
     (case r of
        Done (tr, fin) \<Rightarrow> Some fin
      | Crashed e \<Rightarrow> None
      | StepBudgetExceeded \<Rightarrow> None)"

section \<open>Pattern 1: ReAct\<close>

text \<open>
  \<^verbatim>\<open>ReActState\<close>: the message field is declared with \<^verbatim>\<open>operator.add\<close> (append), the two
  counters are plain fields (replace).
\<close>

record react_state =
  ra_messages :: "message list"
  ra_iteration :: int
  ra_max_iterations :: int

datatype react_field =
    RaMessages "message list"
  | RaIteration int
  | RaMaxIterations int

fun react_merge :: "react_state \<Rightarrow> react_field \<Rightarrow> react_state" where
  "react_merge s (RaMessages ms) = s\<lparr>ra_messages := ra_messages s @ ms\<rparr>"
| "react_merge s (RaIteration i) = s\<lparr>ra_iteration := i\<rparr>"
| "react_merge s (RaMaxIterations m) = s\<lparr>ra_max_iterations := m\<rparr>"

fun react_key :: "react_field \<Rightarrow> string" where
  "react_key (RaMessages ms) = ''messages''"
| "react_key (RaIteration i) = ''iteration''"
| "react_key (RaMaxIterations m) = ''max_iterations''"

definition react_items :: "react_state \<Rightarrow> react_field list" where
  "react_items s = [RaMessages (ra_messages s), RaIteration (ra_iteration s),
     RaMaxIterations (ra_max_iterations s)]"

definition reasoning_node :: "react_state llm_with_tools \<Rightarrow> react_state \<Rightarrow> py_error + react_field list" where
  "reasoning_node llm_with_tools s =
     (let response = tools_reply (llm_with_tools ''reasoning'' s)
      in Inr [RaMessages [response], RaIteration (ra_iteration s + 1)])"

definition react_should_continue :: "react_state \<Rightarrow> py_error + string" where
  "react_should_continue s =
     (case last_message (ra_messages s) of
        Inl e \<Rightarrow> Inl e
      | Inr last_msg \<Rightarrow>
          if ra_iteration s \<ge> ra_max_iterations s then Inr ''end''
          else if has_tool_calls last_msg then Inr ''tools''
          else Inr ''end'')"

definition react_tools :: "(tool_call \<Rightarrow> string) \<Rightarrow> react_state \<Rightarrow> py_error + react_field list" where
  "react_tools run_tool s =
     (case tool_node run_tool (ra_messages s) of
        Inl e \<Rightarrow> Inl e
      | Inr results \<Rightarrow> Inr [RaMessages results])"

definition create_react_agent ::
  "react_state llm_with_tools \<Rightarrow> (tool_call \<Rightarrow> string) \<Rightarrow> (react_state, react_field) state_graph" where
  "create_react_agent llm_with_tools run_tool =
     \<lparr>sg_nodes = [(''reasoning'', reasoning_node llm_with_tools), (''tools'', react_tools run_tool)],
      sg_edges = [(START, Fixed ''reasoning''),
                  (''reasoning'', Conditional react_should_continue [(''tools'', ''tools''), (''end'', END)]),
                  (''tools'', Fixed ''reasoning'')],
      sg_merge = react_merge\<rparr>"

text \<open>The initial state that \<^verbatim>\<open>demo_agents\<close> and the server's \<^verbatim>\<open>invoke_agent\<close> build.\<close>

definition react_initial :: "string \<Rightarrow> int \<Rightarrow> react_state" where
  "react_initial query max_iter =
     \<lparr>ra_messages = [HumanMessage query], ra_iteration = 0, ra_max_iterations = max_iter\<rparr>"

section \<open>Python strings and floats\<close>

text \<open>
  Strings are byte strings here: whitespace and digits are the ASCII ones, which is what
  \<^verbatim>\<open>str.strip\<close>, \<^verbatim>\<open>str.isdigit\<close> and \<^verbatim>\<open>str.lower\<close> do on ASCII text. \<^verbatim>\<open>s.split(sep)\<close> cuts at
  the occurrences of a separator found from left to right; the program only splits at
  non-empty constants.
\<close>

definition is_space :: "char \<Rightarrow> bool" where
  "is_space c = (let n = (of_char c :: nat) in (9 \<le> n \<and> n \<le> 13) \<or> (28 \<le> n \<and> n \<le> 32))"

definition is_digit :: "char \<Rightarrow> bool" where
  "is_digit c = (let n = (of_char c :: nat) in 48 \<le> n \<and> n \<le> 57)"

definition py_strip :: "string \<Rightarrow> string" where
  "py_strip s = rev (dropWhile is_space (rev (dropWhile is_space s)))"

definition lower_char :: "char \<Rightarrow> char" where
  "lower_char c = (let n = (of_char c :: nat) in if 65 \<le> n \<and> n \<le> 90 then char_of (n + 32) else c)"

definition py_lower :: "string \<Rightarrow> string" where
  "py_lower s = map lower_char s"

definition starts_with :: "string \<Rightarrow> string \<Rightarrow> bool" where
  "starts_with sub s = (take (length sub) s = sub)"

fun contains :: "string \<Rightarrow> string \<Rightarrow> bool" where
  "contains sub [] = (sub = [])"
| "contains sub (c # cs) = (starts_with sub (c # cs) \<or> contains sub cs)"

function split_acc :: "string \<Rightarrow> string \<Rightarrow> string \<Rightarrow> string list" where
  "split_acc sep acc [] = [rev acc]"
| "split_acc sep acc (c # cs) =
     (if sep \<noteq> [] \<and> starts_with sep (c # cs)
      then rev acc # split_acc sep [] (drop (length sep) (c # cs))
      else split_acc sep (c # acc) cs)"
  by pat_completeness auto
termination
  by (relation "measure (\<lambda>(sep, acc, s). length s)") auto

definition py_split :: "string \<Rightarrow> string \<Rightarrow> string list" where
  "py_split sep s = split_acc sep [] s"

text \<open>\<^verbatim>\<open>xs[i]\<close>: a negative index counts from the end; out of range raises \<^verbatim>\<open>IndexError\<close>.\<close>

definition py_index :: "'a list \<Rightarrow> int \<Rightarrow> py_error + 'a" where
  "py_index xs i =
     (if 0 \<le> i \<and> i < int (length xs) then Inr (xs ! nat i)
      else if i < 0 \<and> - int (length xs) \<le> i then Inr (xs ! nat (int (length xs) + i))
      else Inl IndexError)"

text \<open>The decimal text of a length, as an f-string prints it.\<close>

definition digit_char :: "nat \<Rightarrow> char" where
  "digit_char d = char_of (of_char CHR ''0'' + d)"

function decimal_digits :: "nat \<Rightarrow> string \<Rightarrow> string" where
  "decimal_digits n acc =
     (if n < 10 then digit_char n # acc
      else decimal_digits (n div 10) (digit_char (n mod 10) # acc))"
  by pat_completeness auto
termination
  by (relation "measure fst") auto

definition string_of_nat :: "nat \<Rightarrow> string" where
  "string_of_nat n = decimal_digits n []"

text \<open>
  A Python float is a finite number, an infinity or not-a-number. \<^verbatim>\<open>x >= t\<close> for a finite
  \<^verbatim>\<open>t\<close> is false for not-a-number. The builtin \<^verbatim>\<open>float(str)\<close> is a parameter of the model:
  \<^verbatim>\<open>None\<close> stands for its \<^verbatim>\<open>ValueError\<close>.
\<close>

datatype pyfloat = Finite real | PosInf | NegInf | NaN

fun float_ge :: "pyfloat \<Rightarrow> real \<Rightarrow> bool" where
  "float_ge (Finite x) t = (x \<ge> t)"
| "float_ge PosInf t = True"
| "float_ge NegInf t = False"
| "float_ge NaN t = False"

type_synonym float_parser = "string \<Rightarrow> pyfloat option"

section \<open>Pattern 2: Plan-Execute\<close>

record plan_execute_state =
  pe_messages :: "message list"
  pe_plan :: "string list"
  pe_completed_steps :: "string list"
  pe_current_step :: int
  pe_results :: "(string \<times> string) list"

datatype plan_execute_field =
    PeMessages "message list"
  | PePlan "string list"
  | PeCompletedSteps "string list"
  | PeCurrentStep int
  | PeResults "(string \<times> string) list"

fun plan_execute_merge :: "plan_execute_state \<Rightarrow> plan_execute_field \<Rightarrow> plan_execute_state" where
  "plan_execute_merge s (PeMessages ms) = s\<lparr>pe_messages := pe_messages s @ ms\<rparr>"
| "plan_execute_merge s (PePlan p) = s\<lparr>pe_plan := p\<rparr>"
| "plan_execute_merge s (PeCompletedSteps c) = s\<lparr>pe_completed_steps := c\<rparr>"
| "plan_execute_merge s (PeCurrentStep i) = s\<lparr>pe_current_step := i\<rparr>"
| "plan_execute_merge s (PeResults r) = s\<lparr>pe_results := r\<rparr>"

fun plan_execute_key :: "plan_execute_field \<Rightarrow> string" where
  "plan_execute_key (PeMessages ms) = ''messages''"
| "plan_execute_key (PePlan p) = ''plan''"
| "plan_execute_key (PeCompletedSteps c) = ''completed_steps''"
| "plan_execute_key (PeCurrentStep i) = ''current_step''"
| "plan_execute_key (PeResults r) = ''results''"

definition plan_execute_items :: "plan_execute_state \<Rightarrow> plan_execute_field list" where
  "plan_execute_items s = [PeMessages (pe_messages s), PePlan (pe_plan s),
     PeCompletedSteps (pe_completed_steps s), PeCurrentStep (pe_current_step s),
     PeResults (pe_results s)]"

text \<open>
  The planner keeps the lines of the reply that are not blank and start with a digit,
  stripped.
\<close>

definition parse_plan :: "string \<Rightarrow> string list" where
  "parse_plan plan_text =
     map py_strip
       (filter (\<lambda>line. py_strip line \<noteq> [] \<and> (case line of [] \<Rightarrow> False | c # cs \<Rightarrow> is_digit c))
          (py_split [CHR 0x0A] plan_text))"

definition planner_node :: "plan_execute_state llm \<Rightarrow> plan_execute_state \<Rightarrow> py_error + plan_execute_field list" where
  "planner_node llm s =
     (let plan_text = llm ''planner'' s;
          plan_steps = parse_plan plan_text
      in Inr [PePlan plan_steps, PeCurrentStep 0, PeResults [],
              PeMessages [AIMessage (''Created plan with '' @ string_of_nat (length plan_steps) @ '' steps'') []]])"

definition executor_node ::
  "plan_execute_state llm_with_tools \<Rightarrow> plan_execute_state \<Rightarrow> py_error + plan_execute_field list" where
  "executor_node llm_with_tools s =
     (let current_step = pe_current_step s in
      if current_step \<ge> int (length (pe_plan s))
      then Inr [PeMessages [AIMessage ''All steps completed'' []]]
      else
        (case py_index (pe_plan s) current_step of
           Inl e \<Rightarrow> Inl e
         | Inr step_description \<Rightarrow>
             (let response = tools_reply (llm_with_tools ''executor'' s)
              in Inr [PeMessages [response], PeCurrentStep (current_step + 1)])))"

definition plan_execute_should_continue :: "plan_execute_state \<Rightarrow> py_error + string" where
  "plan_execute_should_continue s =
     (case last_message (pe_messages s) of
        Inl e \<Rightarrow> Inl e
      | Inr last_msg \<Rightarrow>
          if has_tool_calls last_msg then Inr ''tools''
          else if pe_current_step s \<ge> int (length (pe_plan s)) then Inr ''synthesize''
          else Inr ''execute'')"

definition plan_execute_synthesizer_node ::
  "plan_execute_state llm \<Rightarrow> plan_execute_state \<Rightarrow> py_error + plan_execute_field list" where
  "plan_execute_synthesizer_node llm s = Inr [PeMessages [plain_reply (llm ''synthesizer'' s)]]"

definition plan_execute_tools ::
  "(tool_call \<Rightarrow> string) \<Rightarrow> plan_execute_state \<Rightarrow> py_error + plan_execute_field list" where
  "plan_execute_tools run_tool s =
     (case tool_node run_tool (pe_messages s) of
        Inl e \<Rightarrow> Inl e
      | Inr results \<Rightarrow> Inr [PeMessages results])"

definition create_plan_execute_agent ::
  "plan_execute_state llm \<Rightarrow> plan_execute_state llm_with_tools \<Rightarrow> (tool_call \<Rightarrow> string) \<Rightarrow>
   (plan_execute_state, plan_execute_field) state_graph" where
  "create_plan_execute_agent llm llm_with_tools run_tool =
     \<lparr>sg_nodes = [(''planner'', planner_node llm),
                  (''executor'', executor_node llm_with_tools),
                  (''tools'', plan_execute_tools run_tool),
                  (''synthesizer'', plan_execute_synthesizer_node llm)],
      sg_edges = [(START, Fixed ''planner''),
                  (''planner'', Fixed ''executor''),
                  (''executor'', Conditional plan_execute_should_continue
                     [(''execute'', ''executor''), (''tools'', ''tools''), (''synthesize'', ''synthesizer'')]),
                  (''tools'', Fixed ''executor''),
                  (''synthesizer'', Fixed END)],
      sg_merge = plan_execute_merge\<rparr>"

definition plan_execute_initial :: "string \<Rightarrow> plan_execute_state" where
  "plan_execute_initial query =
     \<lparr>pe_messages = [HumanMessage query], pe_plan = [], pe_completed_steps = [],
      pe_current_step = 0, pe_results = []\<rparr>"

text \<open>
  Readings of a trace: the plan indices that executor runs executed (an executor run
  given \<^verbatim>\<open>current_step >= len(plan)\<close> executes no step), and the executor runs that are
  not re-entries from the tools node.
\<close>

definition executed_steps :: "(string \<times> plan_execute_state) list \<Rightarrow> int list" where
  "executed_steps tr =
     map (\<lambda>e. pe_current_step (snd e))
       (filter (\<lambda>e. fst e = ''executor'' \<and> pe_current_step (snd e) < int (length (pe_plan (snd e)))) tr)"

fun fresh_entries :: "string \<Rightarrow> string list \<Rightarrow> nat" where
  "fresh_entries prev [] = 0"
| "fresh_entries prev (n # ns) =
     (if n = ''executor'' \<and> prev \<noteq> ''tools'' then 1 else 0) + fresh_entries n ns"

section \<open>Pattern 3: Self-Reflection\<close>

record reflection_state =
  rf_messages :: "message list"
  rf_draft :: string
  rf_critique :: string
  rf_iteration :: int
  rf_max_iterations :: int
  rf_quality_score :: pyfloat

datatype reflection_field =
    RfMessages "message list"
  | RfDraft string
  | RfCritique string
  | RfIteration int
  | RfMaxIterations int
  | RfQualityScore pyfloat

fun reflection_merge :: "reflection_state \<Rightarrow> reflection_field \<Rightarrow> reflection_state" where
  "reflection_merge s (RfMessages ms) = s\<lparr>rf_messages := rf_messages s @ ms\<rparr>"
| "reflection_merge s (RfDraft d) = s\<lparr>rf_draft := d\<rparr>"
| "reflection_merge s (RfCritique c) = s\<lparr>rf_critique := c\<rparr>"
| "reflection_merge s (RfIteration i) = s\<lparr>rf_iteration := i\<rparr>"
| "reflection_merge s (RfMaxIterations m) = s\<lparr>rf_max_iterations := m\<rparr>"
| "reflection_merge s (RfQualityScore q) = s\<lparr>rf_quality_score := q\<rparr>"

fun reflection_key :: "reflection_field \<Rightarrow> string" where
  "reflection_key (RfMessages ms) = ''messages''"
| "reflection_key (RfDraft d) = ''draft''"
| "reflection_key (RfCritique c) = ''critique''"
| "reflection_key (RfIteration i) = ''iteration''"
| "reflection_key (RfMaxIterations m) = ''max_iterations''"
| "reflection_key (RfQualityScore q) = ''quality_score''"

definition reflection_items :: "reflection_state \<Rightarrow> reflection_field list" where
  "reflection_items s = [RfMessages (rf_messages s), RfDraft (rf_draft s),
     RfCritique (rf_critique s), RfIteration (rf_iteration s),
     RfMaxIterations (rf_max_iterations s), RfQualityScore (rf_quality_score s)]"

definition generator_node ::
  "reflection_state llm_with_tools \<Rightarrow> reflection_state \<Rightarrow> py_error + reflection_field list" where
  "generator_node llm_with_tools s =
     (let response = tools_reply (llm_with_tools ''generator'' s)
      in Inr [RfMessages [response], RfIteration (rf_iteration s + 1)])"

definition default_score :: pyfloat where
  "default_score = Finite 7.5"

definition quality_threshold :: real where
  "quality_threshold = 8.5"

text \<open>
  \<^verbatim>\<open>content.split("SCORE:")[1].split("/")[0].strip()\<close>, with the \<^verbatim>\<open>IndexError\<close> an index
  out of range would raise.
\<close>

definition score_str :: "string \<Rightarrow> py_error + string" where
  "score_str c =
     (case py_index (py_split ''SCORE:'' c) 1 of
        Inl e \<Rightarrow> Inl e
      | Inr rest \<Rightarrow>
          (case py_index (py_split ''/'' rest) 0 of
             Inl e \<Rightarrow> Inl e
           | Inr x \<Rightarrow> Inr (py_strip x)))"

text \<open>
  The score starts at the default; the bare \<^verbatim>\<open>except: pass\<close> keeps the default whatever
  the \<^verbatim>\<open>try\<close> block raises.
\<close>

definition parse_score :: "float_parser \<Rightarrow> string \<Rightarrow> pyfloat" where
  "parse_score py_float c =
     (let score = default_score in
      if contains ''SCORE:'' c then
        (case score_str c of
           Inl e \<Rightarrow> score
         | Inr text \<Rightarrow> (case py_float text of None \<Rightarrow> score | Some v \<Rightarrow> v))
      else score)"

definition critic_node ::
  "reflection_state llm \<Rightarrow> float_parser \<Rightarrow> reflection_state \<Rightarrow> py_error + reflection_field list" where
  "critic_node llm py_float s =
     (case last_message (rf_messages s) of
        Inl e \<Rightarrow> Inl e
      | Inr last_msg \<Rightarrow>
          (let draft = content last_msg;
               c = llm ''critic'' s;
               score = parse_score py_float c
           in Inr [RfCritique c, RfQualityScore score, RfMessages [plain_reply c]]))"

definition reflection_should_continue :: "reflection_state \<Rightarrow> py_error + string" where
  "reflection_should_continue s =
     (case last_message (rf_messages s) of
        Inl e \<Rightarrow> Inl e
      | Inr last_msg \<Rightarrow>
          if has_tool_calls last_msg then Inr ''tools''
          else if float_ge (rf_quality_score s) quality_threshold \<or> rf_iteration s \<ge> rf_max_iterations s
          then Inr ''end''
          else Inr ''generate'')"

definition reflection_tools ::
  "(tool_call \<Rightarrow> string) \<Rightarrow> reflection_state \<Rightarrow> py_error + reflection_field list" where
  "reflection_tools run_tool s =
     (case tool_node run_tool (rf_messages s) of
        Inl e \<Rightarrow> Inl e
      | Inr results \<Rightarrow> Inr [RfMessages results])"

definition create_reflection_agent ::
  "reflection_state llm \<Rightarrow> reflection_state llm_with_tools \<Rightarrow> float_parser \<Rightarrow> (tool_call \<Rightarrow> string) \<Rightarrow>
   (reflection_state, reflection_field) state_graph" where
  "create_reflection_agent llm llm_with_tools py_float run_tool =
     \<lparr>sg_nodes = [(''generator'', generator_node llm_with_tools),
                  (''critic'', critic_node llm py_float),
                  (''tools'', reflection_tools run_tool)],
      sg_edges = [(START, Fixed ''generator''),
                  (''generator'', Conditional reflection_should_continue
                     [(''generate'', ''critic''), (''tools'', ''tools''), (''end'', END)]),
                  (''tools'', Fixed ''generator''),
                  (''critic'', Fixed ''generator'')],
      sg_merge = reflection_merge\<rparr>"

definition reflection_initial :: "string \<Rightarrow> int \<Rightarrow> reflection_state" where
  "reflection_initial query max_iter =
     \<lparr>rf_messages = [HumanMessage query], rf_draft = [], rf_critique = [], rf_iteration = 0,
      rf_max_iterations = max_iter, rf_quality_score = Finite 0\<rparr>"



text \<open>
  A critique has a parseable score when it holds the marker and \<^verbatim>\<open>float\<close> accepts the
  text cut out after it.
\<close>

definition score_parseable :: "float_parser \<Rightarrow> string \<Rightarrow> bool" where
  "score_parseable py_float c =
     (contains ''SCORE:'' c \<and>
      (case score_str c of Inl e \<Rightarrow> False | Inr text \<Rightarrow> py_float text \<noteq> None))"

section \<open>Pattern 4: Adaptive Multi-Agent (Supervisor)\<close>

text \<open>
  \<^verbatim>\<open>MultiAgentState\<close>. The nodes read \<^verbatim>\<open>next_agent\<close>, \<^verbatim>\<open>completed_agents\<close> and \<^verbatim>\<open>findings\<close> with
  \<^verbatim>\<open>state.get(key, default)\<close>, so these keys may be absent: they are optional fields.
  \<^verbatim>\<open>findings\<close> is a dictionary in insertion order.
\<close>

record multi_agent_state =
  ma_messages :: "message list"
  ma_next_agent :: "string option"
  ma_completed_agents :: "string list option"
  ma_findings :: "(string \<times> string) list option"
  ma_confidence :: "pyfloat option"

datatype multi_agent_field =
    MaMessages "message list"
  | MaNextAgent string
  | MaCompletedAgents "string list"
  | MaFindings "(string \<times> string) list"
  | MaConfidence pyfloat

fun multi_agent_merge :: "multi_agent_state \<Rightarrow> multi_agent_field \<Rightarrow> multi_agent_state" where
  "multi_agent_merge s (MaMessages ms) = s\<lparr>ma_messages := ma_messages s @ ms\<rparr>"
| "multi_agent_merge s (MaNextAgent a) = s\<lparr>ma_next_agent := Some a\<rparr>"
| "multi_agent_merge s (MaCompletedAgents c) = s\<lparr>ma_completed_agents := Some c\<rparr>"
| "multi_agent_merge s (MaFindings f) = s\<lparr>ma_findings := Some f\<rparr>"
| "multi_agent_merge s (MaConfidence x) = s\<lparr>ma_confidence := Some x\<rparr>"

fun multi_agent_key :: "multi_agent_field \<Rightarrow> string" where
  "multi_agent_key (MaMessages ms) = ''messages''"
| "multi_agent_key (MaNextAgent a) = ''next_agent''"
| "multi_agent_key (MaCompletedAgents c) = ''completed_agents''"
| "multi_agent_key (MaFindings f) = ''findings''"
| "multi_agent_key (MaConfidence x) = ''confidence''"

definition multi_agent_items :: "multi_agent_state \<Rightarrow> multi_agent_field list" where
  "multi_agent_items s =
     [MaMessages (ma_messages s)] @
     (case ma_next_agent s of None \<Rightarrow> [] | Some a \<Rightarrow> [MaNextAgent a]) @
     (case ma_completed_agents s of None \<Rightarrow> [] | Some c \<Rightarrow> [MaCompletedAgents c]) @
     (case ma_findings s of None \<Rightarrow> [] | Some f \<Rightarrow> [MaFindings f]) @
     (case ma_confidence s of None \<Rightarrow> [] | Some x \<Rightarrow> [MaConfidence x])"

definition valid_agents :: "string list" where
  "valid_agents = [''data_collector'', ''technical_analyst'', ''research_analyst'',
     ''risk_assessor'', ''synthesizer'']"

definition get_completed :: "multi_agent_state \<Rightarrow> string list" where
  "get_completed s = (case ma_completed_agents s of None \<Rightarrow> [] | Some c \<Rightarrow> c)"

definition get_findings :: "multi_agent_state \<Rightarrow> (string \<times> string) list" where
  "get_findings s = (case ma_findings s of None \<Rightarrow> [] | Some f \<Rightarrow> f)"

definition supervisor_node :: "multi_agent_state llm \<Rightarrow> multi_agent_state \<Rightarrow> py_error + multi_agent_field list" where
  "supervisor_node llm s =
     (let response = llm ''supervisor'' s;
          next_agent = py_lower (py_strip response);
          next_agent = (if next_agent \<notin> set valid_agents then ''data_collector'' else next_agent)
      in Inr [MaNextAgent next_agent, MaMessages [plain_reply response]])"

text \<open>
  The specialists. Each returns the completed list with its own name appended; all but the
  synthesizer also return the findings with their own entry set. The value of what a node
  returns is modelled here; that the node builds it by changing the list and the
  dictionary of the state it was given is modelled in the section on the store.
\<close>

definition data_collector_node ::
  "multi_agent_state llm_with_tools \<Rightarrow> multi_agent_state \<Rightarrow> py_error + multi_agent_field list" where
  "data_collector_node llm_with_tools s =
     (let response = tools_reply (llm_with_tools ''data_collector'' s);
          completed = get_completed s @ [''data_collector''];
          findings = AList.update ''data_collection'' ''Stock data gathered'' (get_findings s)
      in Inr [MaMessages [response], MaCompletedAgents completed, MaFindings findings])"

definition technical_analyst_node ::
  "multi_agent_state llm \<Rightarrow> multi_agent_state \<Rightarrow> py_error + multi_agent_field list" where
  "technical_analyst_node llm s =
     (let response = plain_reply (llm ''technical_analyst'' s);
          completed = get_completed s @ [''technical_analyst''];
          findings = AList.update ''technical_analysis'' ''Pattern analysis complete'' (get_findings s)
      in Inr [MaMessages [response], MaCompletedAgents completed, MaFindings findings])"

definition research_analyst_node ::
  "multi_agent_state llm_with_tools \<Rightarrow> multi_agent_state \<Rightarrow> py_error + multi_agent_field list" where
  "research_analyst_node llm_with_tools s =
     (let response = tools_reply (llm_with_tools ''research_analyst'' s);
          completed = get_completed s @ [''research_analyst''];
          findings = AList.update ''research'' ''Market context analyzed'' (get_findings s)
      in Inr [MaMessages [response], MaCompletedAgents completed, MaFindings findings])"

text \<open>The mock confidence is a random draw: a parameter.\<close>

definition risk_assessor_node ::
  "multi_agent_state llm \<Rightarrow> (multi_agent_state \<Rightarrow> pyfloat) \<Rightarrow> multi_agent_state \<Rightarrow>
   py_error + multi_agent_field list" where
  "risk_assessor_node llm random_uniform s =
     (let response = plain_reply (llm ''risk_assessor'' s);
          completed = get_completed s @ [''risk_assessor''];
          findings = AList.update ''risk_assessment'' ''Risks evaluated'' (get_findings s);
          confidence = random_uniform s
      in Inr [MaMessages [response], MaCompletedAgents completed, MaFindings findings,
              MaConfidence confidence])"

definition synthesizer_node ::
  "multi_agent_state llm \<Rightarrow> multi_agent_state \<Rightarrow> py_error + multi_agent_field list" where
  "synthesizer_node llm s =
     (let response = plain_reply (llm ''synthesizer'' s);
          completed = get_completed s @ [''synthesizer'']
      in Inr [MaMessages [response], MaCompletedAgents completed])"

definition route_to_agent :: "multi_agent_state \<Rightarrow> py_error + string" where
  "route_to_agent s =
     (let next_agent = (case ma_next_agent s of None \<Rightarrow> ''supervisor'' | Some a \<Rightarrow> a) in
      case last_message (ma_messages s) of
        Inl e \<Rightarrow> Inl e
      | Inr last_msg \<Rightarrow>
          if has_tool_calls last_msg then Inr ''tools''
          else if ''synthesizer'' \<in> set (get_completed s) then Inr ''end''
          else Inr next_agent)"

definition multi_agent_tools ::
  "(tool_call \<Rightarrow> string) \<Rightarrow> multi_agent_state \<Rightarrow> py_error + multi_agent_field list" where
  "multi_agent_tools run_tool s =
     (case tool_node run_tool (ma_messages s) of
        Inl e \<Rightarrow> Inl e
      | Inr results \<Rightarrow> Inr [MaMessages results])"

definition specialist_edge :: "multi_agent_state edge" where
  "specialist_edge =
     Conditional route_to_agent [(''supervisor'', ''supervisor''), (''tools'', ''tools''), (''end'', END)]"

definition create_multi_agent_system ::
  "multi_agent_state llm \<Rightarrow> multi_agent_state llm_with_tools \<Rightarrow> (multi_agent_state \<Rightarrow> pyfloat) \<Rightarrow>
   (tool_call \<Rightarrow> string) \<Rightarrow> (multi_agent_state, multi_agent_field) state_graph" where
  "create_multi_agent_system llm llm_with_tools random_uniform run_tool =
     \<lparr>sg_nodes = [(''supervisor'', supervisor_node llm),
                  (''data_collector'', data_collector_node llm_with_tools),
                  (''technical_analyst'', technical_analyst_node llm),
                  (''research_analyst'', research_analyst_node llm_with_tools),
                  (''risk_assessor'', risk_assessor_node llm random_uniform),
                  (''synthesizer'', synthesizer_node llm),
                  (''tools'', multi_agent_tools run_tool)],
      sg_edges = [(START, Fixed ''supervisor''),
                  (''supervisor'', Conditional route_to_agent
                     [(''data_collector'', ''data_collector''),
                      (''technical_analyst'', ''technical_analyst''),
                      (''research_analyst'', ''research_analyst''),
                      (''risk_assessor'', ''risk_assessor''),
                      (''synthesizer'', ''synthesizer''),
                      (''tools'', ''tools''),
                      (''end'', END)]),
                  (''data_collector'', specialist_edge),
                  (''technical_analyst'', specialist_edge),
                  (''research_analyst'', specialist_edge),
                  (''risk_assessor'', specialist_edge),
                  (''synthesizer'', specialist_edge),
                  (''tools'', Fixed ''supervisor'')],
      sg_merge = multi_agent_merge\<rparr>"

definition multi_agent_initial :: "string \<Rightarrow> multi_agent_state" where
  "multi_agent_initial query =
     \<lparr>ma_messages = [HumanMessage query], ma_next_agent = Some ''supervisor'',
      ma_completed_agents = Some [], ma_findings = Some [], ma_confidence = Some (Finite 0)\<rparr>"

text \<open>
  The configurations a run goes through: the node about to run and the state it is given.
  A run starts at the destination of the edge from \<^verbatim>\<open>START\<close>; a step runs the node, applies
  its update and follows its edge.
\<close>

inductive reachable ::
  "('s, 'f) state_graph \<Rightarrow> 's \<Rightarrow> string \<Rightarrow> 's \<Rightarrow> bool"
  for g :: "('s, 'f) state_graph" and s0 :: 's
where
  reach_start: "next_node g START s0 = Inr n \<Longrightarrow> reachable g s0 n s0"
| reach_step: "reachable g s0 n s \<Longrightarrow> exec_node g n s = Inr s' \<Longrightarrow> next_node g n s' = Inr d \<Longrightarrow>
     reachable g s0 d s'"

section \<open>The store: lists and dictionaries as shared objects\<close>

text \<open>
  A Python list or dictionary is an object that a state dictionary holds by reference.
  \<^verbatim>\<open>state.get("completed_agents", [])\<close> returns the reference the state holds (a new empty
  list only when the key is absent), \<^verbatim>\<open>completed.append(name)\<close> and
  \<^verbatim>\<open>findings[key] = text\<close> change the object behind the reference, and the node returns the
  same references in its partial update. The store maps addresses to objects; the state as
  a node receives it holds addresses for the two fields.
\<close>

type_synonym addr = nat

datatype py_object = ListObj "string list" | DictObj "(string \<times> string) list"

record py_store =
  objects :: "addr \<Rightarrow> py_object"
  next_free :: addr

record multi_agent_refs =
  ref_messages :: "message list"
  ref_next_agent :: "string option"
  ref_completed_agents :: "addr option"
  ref_findings :: "addr option"
  ref_confidence :: "pyfloat option"

datatype multi_agent_ref_field =
    RefMessages "message list"
  | RefCompletedAgents addr
  | RefFindings addr

definition list_at :: "py_store \<Rightarrow> addr \<Rightarrow> string list" where
  "list_at st a = (case objects st a of ListObj xs \<Rightarrow> xs | DictObj d \<Rightarrow> [])"

definition dict_at :: "py_store \<Rightarrow> addr \<Rightarrow> (string \<times> string) list" where
  "dict_at st a = (case objects st a of DictObj d \<Rightarrow> d | ListObj xs \<Rightarrow> [])"

text \<open>The state a node sees, with every reference read through the store.\<close>

definition deref :: "py_store \<Rightarrow> multi_agent_refs \<Rightarrow> multi_agent_state" where
  "deref st r =
     \<lparr>ma_messages = ref_messages r,
      ma_next_agent = ref_next_agent r,
      ma_completed_agents = map_option (list_at st) (ref_completed_agents r),
      ma_findings = map_option (dict_at st) (ref_findings r),
      ma_confidence = ref_confidence r\<rparr>"

fun deref_field :: "py_store \<Rightarrow> multi_agent_ref_field \<Rightarrow> multi_agent_field" where
  "deref_field st (RefMessages ms) = MaMessages ms"
| "deref_field st (RefCompletedAgents a) = MaCompletedAgents (list_at st a)"
| "deref_field st (RefFindings a) = MaFindings (dict_at st a)"

definition alloc :: "py_store \<Rightarrow> py_object \<Rightarrow> addr \<times> py_store" where
  "alloc st obj = (next_free st, st\<lparr>objects := (objects st)(next_free st := obj), next_free := Suc (next_free st)\<rparr>)"

definition get_or_new :: "py_store \<Rightarrow> addr option \<Rightarrow> py_object \<Rightarrow> addr \<times> py_store" where
  "get_or_new st r dflt = (case r of Some a \<Rightarrow> (a, st) | None \<Rightarrow> alloc st dflt)"

definition list_append :: "py_store \<Rightarrow> addr \<Rightarrow> string \<Rightarrow> py_error + py_store" where
  "list_append st a x =
     (case objects st a of
        ListObj xs \<Rightarrow> Inr (st\<lparr>objects := (objects st)(a := ListObj (xs @ [x]))\<rparr>)
      | DictObj d \<Rightarrow> Inl AttributeError)"

definition dict_setitem :: "py_store \<Rightarrow> addr \<Rightarrow> string \<Rightarrow> string \<Rightarrow> py_error + py_store" where
  "dict_setitem st a k v =
     (case objects st a of
        DictObj d \<Rightarrow> Inr (st\<lparr>objects := (objects st)(a := DictObj (AList.update k v d))\<rparr>)
      | ListObj xs \<Rightarrow> Inl AttributeError)"

definition data_collector_node_store ::
  "multi_agent_state llm_with_tools \<Rightarrow> py_store \<Rightarrow> multi_agent_refs \<Rightarrow>
   py_error + (py_store \<times> multi_agent_ref_field list)" where
  "data_collector_node_store llm_with_tools st r =
     (let response = tools_reply (llm_with_tools ''data_collector'' (deref st r));
          (completed, st1) = get_or_new st (ref_completed_agents r) (ListObj [])
      in case list_append st1 completed ''data_collector'' of
           Inl e \<Rightarrow> Inl e
         | Inr st2 \<Rightarrow>
             (let (findings, st3) = get_or_new st2 (ref_findings r) (DictObj [])
              in case dict_setitem st3 findings ''data_collection'' ''Stock data gathered'' of
                   Inl e \<Rightarrow> Inl e
                 | Inr st4 \<Rightarrow>
                     Inr (st4, [RefMessages [response], RefCompletedAgents completed, RefFindings findings])))"

definition synthesizer_node_store ::
  "multi_agent_state llm \<Rightarrow> py_store \<Rightarrow> multi_agent_refs \<Rightarrow>
   py_error + (py_store \<times> multi_agent_ref_field list)" where
  "synthesizer_node_store llm st r =
     (let response = plain_reply (llm ''synthesizer'' (deref st r));
          (completed, st1) = get_or_new st (ref_completed_agents r) (ListObj [])
      in case list_append st1 completed ''synthesizer'' of
           Inl e \<Rightarrow> Inl e
         | Inr st2 \<Rightarrow> Inr (st2, [RefMessages [response], RefCompletedAgents completed]))"

text \<open>
  The initial state of \<^verbatim>\<open>demo_agents\<close> and of the server in the store: the empty list at
  address 0 and the empty dictionary at address 1.
\<close>

definition initial_store :: py_store where
  "initial_store = \<lparr>objects = (\<lambda>a. if a = 1 then DictObj [] else ListObj []), next_free = 2\<rparr>"

definition initial_refs :: "string \<Rightarrow> multi_agent_refs" where
  "initial_refs query =
     \<lparr>ref_messages = [HumanMessage query], ref_next_agent = Some ''supervisor'',
      ref_completed_agents = Some 0, ref_findings = Some 1, ref_confidence = Some (Finite 0)\<rparr>"

section \<open>Example oracles\<close>

text \<open>Concrete replies, tools and a fragment of \<^verbatim>\<open>float\<close> for the evaluated runs below.\<close>

definition stock_call :: tool_call where
  "stock_call = \<lparr>tc_name = ''get_stock_price'', tc_args = [(''symbol'', ''AAPL'')], tc_id = ''call_1''\<rparr>"

definition asks_for_price :: "'s llm_with_tools" where
  "asks_for_price node s = (''Let me look it up'', [stock_call])"

definition answers_plainly :: "'s llm_with_tools" where
  "answers_plainly node s = (''AAPL looks fairly valued'', [])"

definition mock_tool :: "tool_call \<Rightarrow> string" where
  "mock_tool tc = ''price: 187.5''"

definition demo_float :: float_parser where
  "demo_float text =
     (if text = ''9.0'' then Some (Finite 9)
      else if text = ''5.0'' then Some (Finite 5)
      else None)"

definition critic_says :: "string \<Rightarrow> reflection_state llm" where
  "critic_says reply node s = reply"

definition four_step_planner :: "plan_execute_state llm" where
  "four_step_planner node s =
     (if node = ''planner''
      then ''1. Get price'' @ [CHR 0x0A] @ ''2. Get history'' @ [CHR 0x0A] @
           ''3. Search reports'' @ [CHR 0x0A] @ ''4. Synthesize''
      else ''Hold'')"

definition tools_on_first_step :: "plan_execute_state llm_with_tools" where
  "tools_on_first_step node s =
     (if pe_current_step s = 0 then (''Fetching'', [stock_call]) else (''Step done'', []))"

definition picks :: "string \<Rightarrow> multi_agent_state llm" where
  "picks agent node s = (if node = ''supervisor'' then agent else ''Recommendation: hold'')"

definition fixed_confidence :: "multi_agent_state \<Rightarrow> pyfloat" where
  "fixed_confidence s = Finite 0.8"

text \<open>
  The state a thread holds after a Reflection run with \<^verbatim>\<open>max_iterations = 5\<close> that ended on a
  critique of 9.0, with a new query appended: what a run starts from when the server's
  \<^verbatim>\<open>stream_agent\<close>, which sends only the messages, is called again with the same thread id.
\<close>

definition resumed_reflection_state :: reflection_state where
  "resumed_reflection_state =
     \<lparr>rf_messages = [HumanMessage ''Analyze AAPL'', AIMessage ''First draft'' [],
                     AIMessage ''SCORE: 9.0/10 CRITIQUE: thorough'' [], AIMessage ''Final report'' [],
                     HumanMessage ''Analyze MSFT''],
      rf_draft = [], rf_critique = ''SCORE: 9.0/10 CRITIQUE: thorough'',
      rf_iteration = 2, rf_max_iterations = 5, rf_quality_score = Finite 9\<rparr>"

section \<open>The reducer\<close>

lemma apply_update_Nil: "apply_update m s [] = s"
  by (simp add: apply_update_def)

lemma apply_update_Cons: "apply_update m s (f # p) = apply_update m (m s f) p"
  by (simp add: apply_update_def)

lemma apply_update_carries_over:
  assumes frame: "\<And>s g. key g \<noteq> key f \<Longrightarrow> f \<in> set (items s) \<Longrightarrow> f \<in> set (items (m s g))"
  shows "key f \<notin> set (map key p) \<Longrightarrow> f \<in> set (items s) \<Longrightarrow> f \<in> set (items (apply_update m s p))"
proof (induction p arbitrary: s)
  case Nil
  then show ?case by (simp add: apply_update_Nil)
next
  case (Cons g p)
  from Cons.prems have "key g \<noteq> key f" by auto
  with Cons.prems have "f \<in> set (items (m s g))" by (simp add: frame)
  with Cons show ?case by (simp add: apply_update_Cons)
qed

lemma apply_update_replaces:
  assumes frame: "\<And>s g. key g \<noteq> key f \<Longrightarrow> f \<in> set (items s) \<Longrightarrow> f \<in> set (items (m s g))"
    and store: "\<And>s. f \<in> set (items (m s f))"
  shows "distinct (map key p) \<Longrightarrow> f \<in> set p \<Longrightarrow> f \<in> set (items (apply_update m s p))"
proof (induction p arbitrary: s)
  case Nil
  then show ?case by simp
next
  case (Cons g p)
  show ?case
  proof (cases "f = g")
    case True
    with Cons.prems have "key f \<notin> set (map key p)" by auto
    moreover have "f \<in> set (items (m s g))" using True store by simp
    ultimately have "f \<in> set (items (apply_update m (m s g) p))"
      using frame by (rule apply_update_carries_over[rotated])
    then show ?thesis by (simp add: apply_update_Cons)
  next
    case False
    with Cons show ?thesis by (simp add: apply_update_Cons)
  qed
qed

lemma apply_update_keeps:
  assumes frame: "\<And>s g. key g \<noteq> k \<Longrightarrow> sel (m s g) = sel s"
  shows "k \<notin> set (map key p) \<Longrightarrow> sel (apply_update m s p) = sel s"
proof (induction p arbitrary: s)
  case Nil
  then show ?case by (simp add: apply_update_Nil)
next
  case (Cons g p)
  from Cons.prems have "key g \<noteq> k" by auto
  then have "sel (m s g) = sel s" by (rule frame)
  with Cons show ?case by (simp add: apply_update_Cons)
qed

lemma apply_update_appends:
  assumes frame: "\<And>s g. key g \<noteq> key f \<Longrightarrow> sel (m s g) = sel s"
    and app: "\<And>s. sel (m s f) = sel s @ ms"
  shows "distinct (map key p) \<Longrightarrow> f \<in> set p \<Longrightarrow> sel (apply_update m s p) = sel s @ ms"
proof (induction p arbitrary: s)
  case Nil
  then show ?case by simp
next
  case (Cons g p)
  show ?case
  proof (cases "f = g")
    case True
    with Cons.prems have "key f \<notin> set (map key p)" by auto
    then have "sel (apply_update m (m s g) p) = sel (m s g)"
      using frame by (rule apply_update_keeps[rotated])
    then show ?thesis using True app by (simp add: apply_update_Cons)
  next
    case False
    with Cons.prems have "f \<in> set p" "key g \<noteq> key f" "distinct (map key p)" by auto
    then show ?thesis using Cons.IH[of "m s g"] by (simp add: apply_update_Cons frame)
  qed
qed

lemma react_frame:
  "react_key g \<noteq> react_key f \<Longrightarrow> f \<in> set (react_items s) \<Longrightarrow> f \<in> set (react_items (react_merge s g))"
  by (cases g) (auto simp: react_items_def)

lemma react_store: "react_key f \<noteq> ''messages'' \<Longrightarrow> f \<in> set (react_items (react_merge s f))"
  by (cases f) (auto simp: react_items_def)

lemma react_msgs_frame:
  "react_key g \<noteq> react_key (RaMessages ms) \<Longrightarrow> ra_messages (react_merge s g) = ra_messages s"
  by (cases g) auto

lemma plan_execute_frame:
  "plan_execute_key g \<noteq> plan_execute_key f \<Longrightarrow> f \<in> set (plan_execute_items s) \<Longrightarrow>
   f \<in> set (plan_execute_items (plan_execute_merge s g))"
  by (cases g) (auto simp: plan_execute_items_def)

lemma plan_execute_store:
  "plan_execute_key f \<noteq> ''messages'' \<Longrightarrow> f \<in> set (plan_execute_items (plan_execute_merge s f))"
  by (cases f) (auto simp: plan_execute_items_def)

lemma plan_execute_msgs_frame:
  "plan_execute_key g \<noteq> plan_execute_key (PeMessages ms) \<Longrightarrow>
   pe_messages (plan_execute_merge s g) = pe_messages s"
  by (cases g) auto

lemma reflection_frame:
  "reflection_key g \<noteq> reflection_key f \<Longrightarrow> f \<in> set (reflection_items s) \<Longrightarrow>
   f \<in> set (reflection_items (reflection_merge s g))"
  by (cases g) (auto simp: reflection_items_def)

lemma reflection_store:
  "reflection_key f \<noteq> ''messages'' \<Longrightarrow> f \<in> set (reflection_items (reflection_merge s f))"
  by (cases f) (auto simp: reflection_items_def)

lemma reflection_msgs_frame:
  "reflection_key g \<noteq> reflection_key (RfMessages ms) \<Longrightarrow>
   rf_messages (reflection_merge s g) = rf_messages s"
  by (cases g) auto

lemma multi_agent_frame:
  "multi_agent_key g \<noteq> multi_agent_key f \<Longrightarrow> f \<in> set (multi_agent_items s) \<Longrightarrow>
   f \<in> set (multi_agent_items (multi_agent_merge s g))"
  by (cases g; cases f) (auto simp: multi_agent_items_def split: option.splits)

lemma multi_agent_store:
  "multi_agent_key f \<noteq> ''messages'' \<Longrightarrow> f \<in> set (multi_agent_items (multi_agent_merge s f))"
  by (cases f) (auto simp: multi_agent_items_def split: option.splits)

lemma multi_agent_msgs_frame:
  "multi_agent_key g \<noteq> multi_agent_key (MaMessages ms) \<Longrightarrow>
   ma_messages (multi_agent_merge s g) = ma_messages s"
  by (cases g) auto

text \<open>
  Claim C8. Applying the empty partial update returns the state unchanged. For a partial
  update that names each field at most once, a field of the state that the partial does
  not name is carried over unchanged, a field the partial names with the replace policy
  holds the partial's value afterwards, and the message sequence the partial names is
  appended to the state's. This holds for the state of each of the four patterns; the
  state is read as its dictionary items.
\<close>

theorem apply_update_merges_by_policy:
  "apply_update react_merge sa [] = sa \<and>
   apply_update plan_execute_merge sb [] = sb \<and>
   apply_update reflection_merge sc [] = sc \<and>
   apply_update multi_agent_merge sd [] = sd \<and>
   (react_key fa \<notin> set (map react_key pa) \<and> fa \<in> set (react_items sa) \<longrightarrow>
      fa \<in> set (react_items (apply_update react_merge sa pa))) \<and>
   (plan_execute_key fb \<notin> set (map plan_execute_key pb) \<and> fb \<in> set (plan_execute_items sb) \<longrightarrow>
      fb \<in> set (plan_execute_items (apply_update plan_execute_merge sb pb))) \<and>
   (reflection_key fc \<notin> set (map reflection_key pc) \<and> fc \<in> set (reflection_items sc) \<longrightarrow>
      fc \<in> set (reflection_items (apply_update reflection_merge sc pc))) \<and>
   (multi_agent_key fd \<notin> set (map multi_agent_key pd) \<and> fd \<in> set (multi_agent_items sd) \<longrightarrow>
      fd \<in> set (multi_agent_items (apply_update multi_agent_merge sd pd))) \<and>
   (distinct (map react_key pa) \<and> ga \<in> set pa \<and> react_key ga \<noteq> ''messages'' \<longrightarrow>
      ga \<in> set (react_items (apply_update react_merge sa pa))) \<and>
   (distinct (map plan_execute_key pb) \<and> gb \<in> set pb \<and> plan_execute_key gb \<noteq> ''messages'' \<longrightarrow>
      gb \<in> set (plan_execute_items (apply_update plan_execute_merge sb pb))) \<and>
   (distinct (map reflection_key pc) \<and> gc \<in> set pc \<and> reflection_key gc \<noteq> ''messages'' \<longrightarrow>
      gc \<in> set (reflection_items (apply_update reflection_merge sc pc))) \<and>
   (distinct (map multi_agent_key pd) \<and> gd \<in> set pd \<and> multi_agent_key gd \<noteq> ''messages'' \<longrightarrow>
      gd \<in> set (multi_agent_items (apply_update multi_agent_merge sd pd))) \<and>
   (distinct (map react_key pa) \<and> RaMessages ma \<in> set pa \<longrightarrow>
      ra_messages (apply_update react_merge sa pa) = ra_messages sa @ ma) \<and>
   (distinct (map plan_execute_key pb) \<and> PeMessages mb \<in> set pb \<longrightarrow>
      pe_messages (apply_update plan_execute_merge sb pb) = pe_messages sb @ mb) \<and>
   (distinct (map reflection_key pc) \<and> RfMessages mc \<in> set pc \<longrightarrow>
      rf_messages (apply_update reflection_merge sc pc) = rf_messages sc @ mc) \<and>
   (distinct (map multi_agent_key pd) \<and> MaMessages md \<in> set pd \<longrightarrow>
      ma_messages (apply_update multi_agent_merge sd pd) = ma_messages sd @ md)"
proof (intro conjI impI)
  show "apply_update react_merge sa [] = sa" by (rule apply_update_Nil)
  show "apply_update plan_execute_merge sb [] = sb" by (rule apply_update_Nil)
  show "apply_update reflection_merge sc [] = sc" by (rule apply_update_Nil)
  show "apply_update multi_agent_merge sd [] = sd" by (rule apply_update_Nil)
next
  assume "react_key fa \<notin> set (map react_key pa) \<and> fa \<in> set (react_items sa)"
  then show "fa \<in> set (react_items (apply_update react_merge sa pa))"
    using apply_update_carries_over[of react_key fa react_items react_merge pa sa] react_frame
    by blast
next
  assume "plan_execute_key fb \<notin> set (map plan_execute_key pb) \<and> fb \<in> set (plan_execute_items sb)"
  then show "fb \<in> set (plan_execute_items (apply_update plan_execute_merge sb pb))"
    using apply_update_carries_over[of plan_execute_key fb plan_execute_items plan_execute_merge pb sb]
      plan_execute_frame
    by blast
next
  assume "reflection_key fc \<notin> set (map reflection_key pc) \<and> fc \<in> set (reflection_items sc)"
  then show "fc \<in> set (reflection_items (apply_update reflection_merge sc pc))"
    using apply_update_carries_over[of reflection_key fc reflection_items reflection_merge pc sc]
      reflection_frame
    by blast
next
  assume "multi_agent_key fd \<notin> set (map multi_agent_key pd) \<and> fd \<in> set (multi_agent_items sd)"
  then show "fd \<in> set (multi_agent_items (apply_update multi_agent_merge sd pd))"
    using apply_update_carries_over[of multi_agent_key fd multi_agent_items multi_agent_merge pd sd]
      multi_agent_frame
    by blast
next
  assume "distinct (map react_key pa) \<and> ga \<in> set pa \<and> react_key ga \<noteq> ''messages''"
  then show "ga \<in> set (react_items (apply_update react_merge sa pa))"
    using apply_update_replaces[of react_key ga react_items react_merge pa sa] react_frame react_store
    by blast
next
  assume "distinct (map plan_execute_key pb) \<and> gb \<in> set pb \<and> plan_execute_key gb \<noteq> ''messages''"
  then show "gb \<in> set (plan_execute_items (apply_update plan_execute_merge sb pb))"
    using apply_update_replaces[of plan_execute_key gb plan_execute_items plan_execute_merge pb sb]
      plan_execute_frame plan_execute_store
    by blast
next
  assume "distinct (map reflection_key pc) \<and> gc \<in> set pc \<and> reflection_key gc \<noteq> ''messages''"
  then show "gc \<in> set (reflection_items (apply_update reflection_merge sc pc))"
    using apply_update_replaces[of reflection_key gc reflection_items reflection_merge pc sc]
      reflection_frame reflection_store
    by blast
next
  assume "distinct (map multi_agent_key pd) \<and> gd \<in> set pd \<and> multi_agent_key gd \<noteq> ''messages''"
  then show "gd \<in> set (multi_agent_items (apply_update multi_agent_merge sd pd))"
    using apply_update_replaces[of multi_agent_key gd multi_agent_items multi_agent_merge pd sd]
      multi_agent_frame multi_agent_store
    by blast
next
  assume "distinct (map react_key pa) \<and> RaMessages ma \<in> set pa"
  then show "ra_messages (apply_update react_merge sa pa) = ra_messages sa @ ma"
    using apply_update_appends[of react_key "RaMessages ma" ra_messages react_merge ma pa sa]
      react_msgs_frame
    by simp
next
  assume "distinct (map plan_execute_key pb) \<and> PeMessages mb \<in> set pb"
  then show "pe_messages (apply_update plan_execute_merge sb pb) = pe_messages sb @ mb"
    using apply_update_appends[of plan_execute_key "PeMessages mb" pe_messages plan_execute_merge mb pb sb]
      plan_execute_msgs_frame
    by simp
next
  assume "distinct (map reflection_key pc) \<and> RfMessages mc \<in> set pc"
  then show "rf_messages (apply_update reflection_merge sc pc) = rf_messages sc @ mc"
    using apply_update_appends[of reflection_key "RfMessages mc" rf_messages reflection_merge mc pc sc]
      reflection_msgs_frame
    by simp
next
  assume "distinct (map multi_agent_key pd) \<and> MaMessages md \<in> set pd"
  then show "ma_messages (apply_update multi_agent_merge sd pd) = ma_messages sd @ md"
    using apply_update_appends[of multi_agent_key "MaMessages md" ma_messages multi_agent_merge md pd sd]
      multi_agent_msgs_frame
    by simp
qed

theorem apply_update_merges_by_policy_witness:
  "RaMaxIterations 3 \<in> set (react_items (apply_update react_merge (react_initial ''q'' 3)
       [RaMessages [AIMessage ''a'' []], RaIteration 1])) \<and>
   RaIteration 1 \<in> set (react_items (apply_update react_merge (react_initial ''q'' 3)
       [RaMessages [AIMessage ''a'' []], RaIteration 1])) \<and>
   ra_messages (apply_update react_merge (react_initial ''q'' 3)
       [RaMessages [AIMessage ''a'' []], RaIteration 1]) = [HumanMessage ''q'', AIMessage ''a'' []] \<and>
   PePlan [] \<in> set (plan_execute_items (apply_update plan_execute_merge (plan_execute_initial ''q'')
       [PeMessages [AIMessage ''a'' []], PeCurrentStep 1])) \<and>
   PeCurrentStep 1 \<in> set (plan_execute_items (apply_update plan_execute_merge (plan_execute_initial ''q'')
       [PeMessages [AIMessage ''a'' []], PeCurrentStep 1])) \<and>
   RfMaxIterations 2 \<in> set (reflection_items (apply_update reflection_merge (reflection_initial ''q'' 2)
       [RfMessages [AIMessage ''a'' []], RfIteration 1])) \<and>
   RfIteration 1 \<in> set (reflection_items (apply_update reflection_merge (reflection_initial ''q'' 2)
       [RfMessages [AIMessage ''a'' []], RfIteration 1])) \<and>
   MaCompletedAgents [] \<in> set (multi_agent_items (apply_update multi_agent_merge (multi_agent_initial ''q'')
       [MaNextAgent ''synthesizer'', MaMessages [AIMessage ''a'' []]])) \<and>
   MaNextAgent ''synthesizer'' \<in> set (multi_agent_items (apply_update multi_agent_merge (multi_agent_initial ''q'')
       [MaNextAgent ''synthesizer'', MaMessages [AIMessage ''a'' []]]))"
  using apply_update_merges_by_policy
    [where sa = "react_initial ''q'' 3" and pa = "[RaMessages [AIMessage ''a'' []], RaIteration 1]"
       and fa = "RaMaxIterations 3" and ga = "RaIteration 1" and ma = "[AIMessage ''a'' []]"
       and sb = "plan_execute_initial ''q''" and pb = "[PeMessages [AIMessage ''a'' []], PeCurrentStep 1]"
       and fb = "PePlan []" and gb = "PeCurrentStep 1" and mb = "[AIMessage ''a'' []]"
       and sc = "reflection_initial ''q'' 2" and pc = "[RfMessages [AIMessage ''a'' []], RfIteration 1]"
       and fc = "RfMaxIterations 2" and gc = "RfIteration 1" and mc = "[AIMessage ''a'' []]"
       and sd = "multi_agent_initial ''q''" and pd = "[MaNextAgent ''synthesizer'', MaMessages [AIMessage ''a'' []]]"
       and fd = "MaCompletedAgents []" and gd = "MaNextAgent ''synthesizer''" and md = "[AIMessage ''a'' []]"]
  by (simp add: react_initial_def react_items_def plan_execute_initial_def plan_execute_items_def
      reflection_initial_def reflection_items_def multi_agent_initial_def multi_agent_items_def)

section \<open>The engine's steps\<close>

lemma run_END: "run b g END s = Done ([], s)"
  by (cases b) simp_all

lemma run_step:
  "n \<noteq> END \<Longrightarrow> exec_node g n s = Inr s' \<Longrightarrow> next_node g n s' = Inr d \<Longrightarrow>
   run (Suc b) g n s =
     (case run b g d s' of
        Done (tr, fin) \<Rightarrow> Done ((n, s) # tr, fin)
      | Crashed e \<Rightarrow> Crashed e
      | StepBudgetExceeded \<Rightarrow> StepBudgetExceeded)"
  by simp

section \<open>ReAct: the router after the reasoning node\<close>

lemma react_exec_reasoning:
  "exec_node (create_react_agent llm rt) ''reasoning'' s =
     Inr (s\<lparr>ra_messages := ra_messages s @ [tools_reply (llm ''reasoning'' s)],
            ra_iteration := ra_iteration s + 1\<rparr>)"
  by (simp add: exec_node_def create_react_agent_def reasoning_node_def apply_update_def)

lemma react_next_reasoning:
  "ra_messages s \<noteq> [] \<Longrightarrow>
   next_node (create_react_agent llm rt) ''reasoning'' s =
     Inr (if ra_iteration s \<ge> ra_max_iterations s \<or> \<not> has_tool_calls (last (ra_messages s))
          then END else ''tools'')"
  by (simp add: next_node_def create_react_agent_def react_should_continue_def last_message_def START_def)

text \<open>
  Claim C2, as amended. After the reasoning node has run, the iteration counter is one
  more than before and the last message is the oracle's reply. The router ends the run
  exactly when the counter has reached the maximum or the reply carries no
  tool-invocation request; in every other case the run continues to the tools node. The
  iteration limit ends the run also when a tool-invocation request is pending.
\<close>

theorem react_router_ends_on_limit_or_plain_answer:
  "\<exists>s'. exec_node (create_react_agent llm_with_tools run_tool) ''reasoning'' s = Inr s' \<and>
     ra_iteration s' = ra_iteration s + 1 \<and>
     ra_max_iterations s' = ra_max_iterations s \<and>
     last (ra_messages s') = tools_reply (llm_with_tools ''reasoning'' s) \<and>
     react_should_continue s' =
       Inr (if ra_iteration s' \<ge> ra_max_iterations s' \<or> \<not> has_tool_calls (last (ra_messages s'))
            then ''end'' else ''tools'') \<and>
     next_node (create_react_agent llm_with_tools run_tool) ''reasoning'' s' =
       Inr (if ra_iteration s' \<ge> ra_max_iterations s' \<or> \<not> has_tool_calls (last (ra_messages s'))
            then END else ''tools'')"
  by (simp add: react_exec_reasoning react_next_reasoning react_should_continue_def last_message_def)

theorem react_router_witness:
  "\<exists>s'. exec_node (create_react_agent asks_for_price mock_tool) ''reasoning''
          (react_initial ''Should I invest in AAPL?'' 3) = Inr s' \<and>
        ra_iteration s' = 1 \<and> react_should_continue s' = Inr ''tools''"
  using react_router_ends_on_limit_or_plain_answer
    [of asks_for_price mock_tool "react_initial ''Should I invest in AAPL?'' 3"]
  by (auto simp: react_initial_def tools_reply_def asks_for_price_def)

text \<open>
  The claim as stated fails: with \<^verbatim>\<open>max_iterations = 1\<close>, the first reply requests a tool,
  so neither (a) nor (b) of the claim holds, and the router ends the run.
\<close>

theorem react_router_counterexample:
  "exec_node (create_react_agent asks_for_price mock_tool) ''reasoning''
      (react_initial ''Should I invest in AAPL?'' 1) =
     Inr \<lparr>ra_messages = [HumanMessage ''Should I invest in AAPL?'', AIMessage ''Let me look it up'' [stock_call]],
          ra_iteration = 1, ra_max_iterations = 1\<rparr> \<and>
   has_tool_calls (AIMessage ''Let me look it up'' [stock_call]) \<and>
   react_should_continue
     \<lparr>ra_messages = [HumanMessage ''Should I invest in AAPL?'', AIMessage ''Let me look it up'' [stock_call]],
      ra_iteration = 1, ra_max_iterations = 1\<rparr> = Inr ''end'' \<and>
   react_should_continue
     \<lparr>ra_messages = [HumanMessage ''Should I invest in AAPL?'', AIMessage ''Let me look it up'' [stock_call]],
      ra_iteration = 1, ra_max_iterations = 1\<rparr> \<noteq> Inr ''tools''"
  by (simp add: react_exec_reasoning react_initial_def tools_reply_def asks_for_price_def
      react_should_continue_def last_message_def)

section \<open>Self-Reflection: the critic's score\<close>

lemma reflection_exec_generator:
  "exec_node (create_reflection_agent llm lwt pf rt) ''generator'' s =
     Inr (s\<lparr>rf_messages := rf_messages s @ [tools_reply (lwt ''generator'' s)],
            rf_iteration := rf_iteration s + 1\<rparr>)"
  by (simp add: exec_node_def create_reflection_agent_def generator_node_def apply_update_def)

lemma reflection_exec_critic:
  "rf_messages s \<noteq> [] \<Longrightarrow>
   exec_node (create_reflection_agent llm lwt pf rt) ''critic'' s =
     Inr (s\<lparr>rf_critique := llm ''critic'' s,
            rf_quality_score := parse_score pf (llm ''critic'' s),
            rf_messages := rf_messages s @ [plain_reply (llm ''critic'' s)]\<rparr>)"
  by (simp add: exec_node_def create_reflection_agent_def critic_node_def apply_update_def
      last_message_def Let_def)

lemma reflection_next_generator:
  "rf_messages s \<noteq> [] \<Longrightarrow>
   next_node (create_reflection_agent llm lwt pf rt) ''generator'' s =
     Inr (if has_tool_calls (last (rf_messages s)) then ''tools''
          else if float_ge (rf_quality_score s) quality_threshold \<or> rf_iteration s \<ge> rf_max_iterations s
          then END else ''critic'')"
  by (simp add: next_node_def create_reflection_agent_def reflection_should_continue_def
      last_message_def START_def)

lemma reflection_next_critic:
  "next_node (create_reflection_agent llm lwt pf rt) ''critic'' s = Inr ''generator''"
  by (simp add: next_node_def create_reflection_agent_def START_def)

lemma reflection_next_tools:
  "next_node (create_reflection_agent llm lwt pf rt) ''tools'' s = Inr ''generator''"
  by (simp add: next_node_def create_reflection_agent_def START_def)

lemma reflection_next_START:
  "next_node (create_reflection_agent llm lwt pf rt) START s = Inr ''generator''"
  by (simp add: next_node_def create_reflection_agent_def)

lemma parse_score_default:
  "\<not> score_parseable pf c \<Longrightarrow> parse_score pf c = default_score"
  by (auto simp: score_parseable_def parse_score_def split: sum.splits option.splits)

lemma default_below_threshold: "\<not> float_ge default_score quality_threshold"
  by (simp add: default_score_def quality_threshold_def)

lemma unparseable_example: "\<not> score_parseable demo_float ''SCORE: high''"
  by (simp add: score_parseable_def score_str_def py_split_def starts_with_def py_index_def
      py_strip_def is_space_def demo_float_def)

text \<open>
  Claim C6. When the critic runs (it follows the generator, so the message sequence is not
  empty) and no score can be parsed from the critique, the critic node raises nothing: it
  returns its partial update with the quality score set to the default 7.5, and the run
  continues with the generator.
\<close>

theorem critic_defaults_on_unparseable_score:
  "rf_messages s \<noteq> [] \<Longrightarrow> \<not> score_parseable py_float (llm ''critic'' s) \<Longrightarrow>
   critic_node llm py_float s =
     Inr [RfCritique (llm ''critic'' s), RfQualityScore (Finite 7.5),
          RfMessages [plain_reply (llm ''critic'' s)]] \<and>
   (\<exists>s'. exec_node (create_reflection_agent llm llm_with_tools py_float run_tool) ''critic'' s = Inr s' \<and>
         rf_quality_score s' = Finite 7.5 \<and>
         next_node (create_reflection_agent llm llm_with_tools py_float run_tool) ''critic'' s' =
           Inr ''generator'')"
  by (simp add: reflection_exec_critic reflection_next_critic parse_score_default critic_node_def
      last_message_def default_score_def Let_def)

theorem critic_defaults_witness:
  "rf_messages (reflection_initial ''q'' 2) \<noteq> [] \<and> \<not> score_parseable demo_float ''SCORE: high'' \<and>
   critic_node (critic_says ''SCORE: high'') demo_float (reflection_initial ''q'' 2) =
     Inr [RfCritique ''SCORE: high'', RfQualityScore (Finite 7.5), RfMessages [AIMessage ''SCORE: high'' []]]"
  using critic_defaults_on_unparseable_score
    [of "reflection_initial ''q'' 2" demo_float "critic_says ''SCORE: high''"]
    unparseable_example
  by (simp add: reflection_initial_def critic_says_def plain_reply_def)

section \<open>Self-Reflection: runs\<close>

lemma reflection_names_not_END: "''generator'' \<noteq> END" "''critic'' \<noteq> END" "''tools'' \<noteq> END"
  by (simp_all add: END_def)

lemma reflection_last_step:
  assumes nt: "snd (lwt ''generator'' s) = []"
    and stop: "float_ge (rf_quality_score s) quality_threshold \<or> rf_iteration s + 1 \<ge> rf_max_iterations s"
  shows "run (Suc b) (create_reflection_agent llm lwt pf rt) ''generator'' s =
     Done ([(''generator'', s)],
           s\<lparr>rf_messages := rf_messages s @ [tools_reply (lwt ''generator'' s)],
             rf_iteration := rf_iteration s + 1\<rparr>)"
proof -
  let ?g = "create_reflection_agent llm lwt pf rt"
  let ?s1 = "s\<lparr>rf_messages := rf_messages s @ [tools_reply (lwt ''generator'' s)],
                 rf_iteration := rf_iteration s + 1\<rparr>"
  have "next_node ?g ''generator'' ?s1 = Inr END"
    using nt stop by (simp add: reflection_next_generator tools_reply_def)
  then show ?thesis
    using run_step[OF reflection_names_not_END(1) reflection_exec_generator, of llm lwt pf rt s END b]
    by (simp add: run_END)
qed

lemma reflection_cycle_step:
  assumes nt: "snd (lwt ''generator'' s) = []"
    and go: "\<not> float_ge (rf_quality_score s) quality_threshold" "rf_iteration s + 1 < rf_max_iterations s"
  shows "\<exists>s1 s2. rf_iteration s1 = rf_iteration s + 1 \<and>
     rf_iteration s2 = rf_iteration s + 1 \<and> rf_max_iterations s2 = rf_max_iterations s \<and>
     rf_quality_score s2 = parse_score pf (llm ''critic'' s1) \<and>
     run (Suc (Suc b)) (create_reflection_agent llm lwt pf rt) ''generator'' s =
       (case run b (create_reflection_agent llm lwt pf rt) ''generator'' s2 of
          Done (tr, fin) \<Rightarrow> Done ((''generator'', s) # (''critic'', s1) # tr, fin)
        | Crashed e \<Rightarrow> Crashed e
        | StepBudgetExceeded \<Rightarrow> StepBudgetExceeded)"
proof -
  let ?g = "create_reflection_agent llm lwt pf rt"
  let ?s1 = "s\<lparr>rf_messages := rf_messages s @ [tools_reply (lwt ''generator'' s)],
                 rf_iteration := rf_iteration s + 1\<rparr>"
  let ?s2 = "?s1\<lparr>rf_critique := llm ''critic'' ?s1,
            rf_quality_score := parse_score pf (llm ''critic'' ?s1),
            rf_messages := rf_messages ?s1 @ [plain_reply (llm ''critic'' ?s1)]\<rparr>"
  have n1: "next_node ?g ''generator'' ?s1 = Inr ''critic''"
    using nt go by (simp add: reflection_next_generator tools_reply_def)
  have e2: "exec_node ?g ''critic'' ?s1 = Inr ?s2"
    by (rule reflection_exec_critic) simp
  have "run (Suc (Suc b)) ?g ''generator'' s =
       (case run b ?g ''generator'' ?s2 of
          Done (tr, fin) \<Rightarrow> Done ((''generator'', s) # (''critic'', ?s1) # tr, fin)
        | Crashed e \<Rightarrow> Crashed e
        | StepBudgetExceeded \<Rightarrow> StepBudgetExceeded)"
    using run_step[OF reflection_names_not_END(1) reflection_exec_generator n1, of "Suc b"]
      run_step[OF reflection_names_not_END(2) e2 reflection_next_critic, of b]
    by (simp split: run_result.splits)
  then show ?thesis
    by (intro exI[of _ ?s1] exI[of _ ?s2]) simp
qed

lemma reflection_low_loop:
  assumes nt: "\<And>s. snd (lwt ''generator'' s) = []"
    and low: "\<And>s. \<not> float_ge (parse_score pf (llm ''critic'' s)) quality_threshold"
  shows "\<not> float_ge (rf_quality_score s) quality_threshold \<Longrightarrow>
     k = nat (rf_max_iterations s - rf_iteration s - 1) \<Longrightarrow> 2 * k + 1 \<le> b \<Longrightarrow>
     \<exists>tr fin. run b (create_reflection_agent llm lwt pf rt) ''generator'' s = Done (tr, fin) \<and>
       node_names tr = concat (replicate k [''generator'', ''critic'']) @ [''generator''] \<and>
       rf_iteration fin = rf_iteration s + int k + 1 \<and>
       rf_max_iterations fin = rf_max_iterations s \<and>
       \<not> float_ge (rf_quality_score fin) quality_threshold"
proof (induction k arbitrary: s b)
  case 0
  then obtain b' where b: "b = Suc b'" by (cases b) auto
  from 0 have "rf_iteration s + 1 \<ge> rf_max_iterations s" by simp
  then show ?case
    using reflection_last_step[where lwt=lwt and s=s and llm=llm and pf=pf and rt=rt and b=b', OF nt] 0(1)
    by (simp add: b node_names_def)
next
  case (Suc k)
  then obtain b' where b: "b = Suc (Suc b')" and b': "2 * k + 1 \<le> b'"
    by (cases b; cases "b - 1") auto
  from Suc.prems have go: "rf_iteration s + 1 < rf_max_iterations s" by simp
  from reflection_cycle_step[where lwt=lwt and s=s and llm=llm and pf=pf and rt=rt and b=b', OF nt Suc.prems(1) go]
  obtain s1 s2 where s12: "rf_iteration s1 = rf_iteration s + 1"
      "rf_iteration s2 = rf_iteration s + 1" "rf_max_iterations s2 = rf_max_iterations s"
      "rf_quality_score s2 = parse_score pf (llm ''critic'' s1)"
    and r: "run (Suc (Suc b')) (create_reflection_agent llm lwt pf rt) ''generator'' s =
       (case run b' (create_reflection_agent llm lwt pf rt) ''generator'' s2 of
          Done (tr, fin) \<Rightarrow> Done ((''generator'', s) # (''critic'', s1) # tr, fin)
        | Crashed e \<Rightarrow> Crashed e
        | StepBudgetExceeded \<Rightarrow> StepBudgetExceeded)"
    by blast
  have lo2: "\<not> float_ge (rf_quality_score s2) quality_threshold" using s12(4) low by simp
  have k2: "k = nat (rf_max_iterations s2 - rf_iteration s2 - 1)" using Suc.prems(2) s12 by simp
  from Suc.IH[OF lo2 k2 b'] obtain tr fin where
    ih: "run b' (create_reflection_agent llm lwt pf rt) ''generator'' s2 = Done (tr, fin)"
      "node_names tr = concat (replicate k [''generator'', ''critic'']) @ [''generator'']"
      "rf_iteration fin = rf_iteration s2 + int k + 1"
      "rf_max_iterations fin = rf_max_iterations s2"
      "\<not> float_ge (rf_quality_score fin) quality_threshold"
    by blast
  show ?case
    using r ih s12 by (simp add: b node_names_def)
qed

lemma reflection_exec_keeps_low:
  assumes un: "\<And>s. \<not> score_parseable pf (llm ''critic'' s)"
  shows "exec_node (create_reflection_agent llm lwt pf rt) n s = Inr s' \<Longrightarrow>
     \<not> float_ge (rf_quality_score s) quality_threshold \<Longrightarrow>
     \<not> float_ge (rf_quality_score s') quality_threshold"
  using parse_score_default[OF un] default_below_threshold
  by (auto simp: exec_node_def create_reflection_agent_def generator_node_def critic_node_def
      reflection_tools_def apply_update_def Let_def split: if_splits sum.splits)

lemma reflection_end_means_limit:
  "next_node (create_reflection_agent llm lwt pf rt) n s = Inr END \<Longrightarrow>
   \<not> float_ge (rf_quality_score s) quality_threshold \<Longrightarrow>
   rf_iteration s \<ge> rf_max_iterations s"
  by (auto simp: next_node_def create_reflection_agent_def reflection_should_continue_def
      START_def END_def split: if_splits sum.splits)

lemma reflection_safety:
  assumes un: "\<And>s. \<not> score_parseable pf (llm ''critic'' s)"
  shows "run b (create_reflection_agent llm lwt pf rt) n s = Done (tr, fin) \<Longrightarrow> n \<noteq> END \<Longrightarrow>
     \<not> float_ge (rf_quality_score s) quality_threshold \<Longrightarrow>
     rf_iteration fin \<ge> rf_max_iterations fin \<and>
     \<not> float_ge (rf_quality_score fin) quality_threshold \<and>
     list_all (\<lambda>e. \<not> float_ge (rf_quality_score (snd e)) quality_threshold) tr"
proof (induction b arbitrary: n s tr)
  case 0
  then show ?case by simp
next
  case (Suc b)
  let ?g = "create_reflection_agent llm lwt pf rt"
  from Suc.prems obtain s' d tr' where
    ex: "exec_node ?g n s = Inr s'" and nx: "next_node ?g n s' = Inr d"
    and rn: "run b ?g d s' = Done (tr', fin)" and tr: "tr = (n, s) # tr'"
    by (auto split: sum.splits run_result.splits)
  have lo: "\<not> float_ge (rf_quality_score s') quality_threshold"
    using reflection_exec_keeps_low[OF un ex Suc.prems(3)] .
  show ?case
  proof (cases "d = END")
    case True
    with rn have "fin = s'" "tr' = []" by (simp_all add: run_END)
    moreover have "rf_iteration s' \<ge> rf_max_iterations s'"
      using reflection_end_means_limit nx True lo by blast
    ultimately show ?thesis using lo tr Suc.prems(3) by simp
  next
    case False
    from Suc.IH[OF rn False lo] show ?thesis using tr Suc.prems(3) by simp
  qed
qed


lemma reflection_invoke:
  "invoke b (create_reflection_agent llm lwt pf rt) s = run b (create_reflection_agent llm lwt pf rt) ''generator'' s"
  by (simp add: invoke_def reflection_next_START)







lemma unparseable_example_plain: "\<not> score_parseable demo_float ''Looks fine to me''"
  by (simp add: score_parseable_def starts_with_def)

text \<open>
  Claim C10, as amended. The default score 7.5 is below the threshold 8.5. In a run that
  starts from a state whose quality score is below the threshold (the callers
  \<^verbatim>\<open>demo_agents\<close> and \<^verbatim>\<open>invoke_agent\<close> start from 0.0) and in which no critique has a parseable
  score, every state has a score below the threshold, so the quality exit is never taken:
  if the run ends, the iteration counter has reached \<^verbatim>\<open>max_iterations\<close>. The generator may
  request tools. When it never does, the run does end within the stated step budget, with
  the counter at \<^verbatim>\<open>max_iterations\<close> (one more than at the start when the start is already at
  or past \<^verbatim>\<open>max_iterations\<close>).
\<close>

theorem unparseable_scores_end_only_at_limit:
  assumes un: "\<forall>s. \<not> score_parseable py_float (llm ''critic'' s)"
    and start: "\<not> float_ge (rf_quality_score s0) quality_threshold"
  shows
  "\<not> float_ge default_score quality_threshold \<and>
   (invoke budget (create_reflection_agent llm llm_with_tools py_float run_tool) s0 = Done (tr, fin) \<longrightarrow>
      rf_iteration fin \<ge> rf_max_iterations fin \<and>
      \<not> float_ge (rf_quality_score fin) quality_threshold \<and>
      list_all (\<lambda>e. \<not> float_ge (rf_quality_score (snd e)) quality_threshold) tr) \<and>
   ((\<forall>s. snd (llm_with_tools ''generator'' s) = []) \<and>
    2 * nat (rf_max_iterations s0 - rf_iteration s0 - 1) + 1 \<le> budget \<longrightarrow>
      (\<exists>tr' fin'. invoke budget (create_reflection_agent llm llm_with_tools py_float run_tool) s0 =
           Done (tr', fin') \<and>
         rf_iteration fin' = max (rf_max_iterations s0) (rf_iteration s0 + 1) \<and>
         rf_max_iterations fin' = rf_max_iterations s0))"
proof (intro conjI impI)
  let ?g = "create_reflection_agent llm llm_with_tools py_float run_tool"
  have un': "\<And>s. \<not> score_parseable py_float (llm ''critic'' s)" using un by simp
  show "\<not> float_ge default_score quality_threshold" by (rule default_below_threshold)
  {
    assume "invoke budget ?g s0 = Done (tr, fin)"
    then have r: "run budget ?g ''generator'' s0 = Done (tr, fin)" by (simp add: reflection_invoke)
    from reflection_safety[where pf=py_float and llm=llm, OF un' r reflection_names_not_END(1) start]
    show "rf_iteration fin \<ge> rf_max_iterations fin"
      and "\<not> float_ge (rf_quality_score fin) quality_threshold"
      and "list_all (\<lambda>e. \<not> float_ge (rf_quality_score (snd e)) quality_threshold) tr"
      by simp_all
  }
  {
    assume a: "(\<forall>s. snd (llm_with_tools ''generator'' s) = []) \<and>
      2 * nat (rf_max_iterations s0 - rf_iteration s0 - 1) + 1 \<le> budget"
    then have nt: "\<And>s. snd (llm_with_tools ''generator'' s) = []" by simp
    have low: "\<And>s. \<not> float_ge (parse_score py_float (llm ''critic'' s)) quality_threshold"
      using parse_score_default[OF un'] default_below_threshold by simp
    have k: "nat (rf_max_iterations s0 - rf_iteration s0 - 1) =
        nat (rf_max_iterations s0 - rf_iteration s0 - 1)"
      by simp
    from a have bb: "2 * nat (rf_max_iterations s0 - rf_iteration s0 - 1) + 1 \<le> budget" by simp
    from reflection_low_loop[where lwt=llm_with_tools and llm=llm and pf=py_float and rt=run_tool,
        OF nt low start k bb]
    obtain tr' fin' where r: "run budget ?g ''generator'' s0 = Done (tr', fin')"
       "rf_iteration fin' = rf_iteration s0 + int (nat (rf_max_iterations s0 - rf_iteration s0 - 1)) + 1"
       "rf_max_iterations fin' = rf_max_iterations s0"
      by blast
    have "rf_iteration fin' = max (rf_max_iterations s0) (rf_iteration s0 + 1)" using r(2) by simp
    then show "\<exists>tr' fin'. invoke budget ?g s0 = Done (tr', fin') \<and>
         rf_iteration fin' = max (rf_max_iterations s0) (rf_iteration s0 + 1) \<and>
         rf_max_iterations fin' = rf_max_iterations s0"
      using r(1,3) by (simp add: reflection_invoke)
  }
qed

theorem unparseable_scores_witness:
  "\<not> float_ge (rf_quality_score (reflection_initial ''Analyze AAPL'' 2)) quality_threshold \<and>
   (\<forall>s::reflection_state. \<not> score_parseable demo_float (critic_says ''Looks fine to me'' ''critic'' s)) \<and>
   (\<exists>tr fin. invoke 25 (create_reflection_agent (critic_says ''Looks fine to me'') answers_plainly
                 demo_float mock_tool) (reflection_initial ''Analyze AAPL'' 2) = Done (tr, fin) \<and>
      rf_iteration fin = 2 \<and> rf_max_iterations fin = 2)"
proof -
  have un: "\<forall>s::reflection_state. \<not> score_parseable demo_float (critic_says ''Looks fine to me'' ''critic'' s)"
    by (simp add: critic_says_def unparseable_example_plain)
  have nt: "\<forall>s::reflection_state. snd (answers_plainly ''generator'' s) = []"
    by (simp add: answers_plainly_def)
  have start: "\<not> float_ge (rf_quality_score (reflection_initial ''Analyze AAPL'' 2)) quality_threshold"
    by (simp add: reflection_initial_def quality_threshold_def)
  have bud: "2 * nat (rf_max_iterations (reflection_initial ''Analyze AAPL'' 2) -
      rf_iteration (reflection_initial ''Analyze AAPL'' 2) - 1) + 1 \<le> (25::nat)"
    by (simp add: reflection_initial_def)
  from unparseable_scores_end_only_at_limit[where py_float=demo_float
        and llm="critic_says ''Looks fine to me''" and llm_with_tools=answers_plainly
        and budget=25 and run_tool=mock_tool and ?s0.0="reflection_initial ''Analyze AAPL'' 2",
        OF un start] nt bud
  have "\<exists>tr fin. invoke 25 (create_reflection_agent (critic_says ''Looks fine to me'') answers_plainly
                 demo_float mock_tool) (reflection_initial ''Analyze AAPL'' 2) = Done (tr, fin) \<and>
      rf_iteration fin = 2 \<and> rf_max_iterations fin = 2"
    by (auto simp: reflection_initial_def)
  with un start show ?thesis by blast
qed

text \<open>
  The claim as stated fails for a run that does not start below the threshold. From the
  state a thread holds after a run that ended on a critique of 9.0 (iteration 2 of 5), with
  a critic whose reply has no parseable score, the run is a single generation: it ends by
  the quality exit on the stored score, with the counter at 3, below \<^verbatim>\<open>max_iterations = 5\<close>.
\<close>

theorem unparseable_scores_counterexample:
  "\<not> score_parseable demo_float ''Looks fine to me'' \<and>
   float_ge (rf_quality_score resumed_reflection_state) quality_threshold \<and>
   run_names (invoke 25 (create_reflection_agent (critic_says ''Looks fine to me'') answers_plainly
       demo_float mock_tool) resumed_reflection_state) = Some [''generator''] \<and>
   map_option rf_iteration (final_state (invoke 25 (create_reflection_agent
       (critic_says ''Looks fine to me'') answers_plainly demo_float mock_tool)
       resumed_reflection_state)) = Some 3 \<and>
   map_option rf_max_iterations (final_state (invoke 25 (create_reflection_agent
       (critic_says ''Looks fine to me'') answers_plainly demo_float mock_tool)
       resumed_reflection_state)) = Some 5 \<and>
   map_option rf_quality_score (final_state (invoke 25 (create_reflection_agent
       (critic_says ''Looks fine to me'') answers_plainly demo_float mock_tool)
       resumed_reflection_state)) = Some (Finite 9)"
  by code_simp

section \<open>Plan-Execute: runs\<close>

lemma plan_execute_names_not_END:
  "''planner'' \<noteq> END" "''executor'' \<noteq> END" "''tools'' \<noteq> END" "''synthesizer'' \<noteq> END"
  by (simp_all add: END_def)

lemma plan_execute_exec_planner:
  "exec_node (create_plan_execute_agent llm lwt rt) ''planner'' s =
     Inr (s\<lparr>pe_plan := parse_plan (llm ''planner'' s), pe_current_step := 0, pe_results := [],
            pe_messages := pe_messages s @
              [AIMessage (''Created plan with '' @ string_of_nat (length (parse_plan (llm ''planner'' s))) @ '' steps'') []]\<rparr>)"
  by (simp add: exec_node_def create_plan_execute_agent_def planner_node_def apply_update_def Let_def)

lemma plan_execute_exec_step:
  "0 \<le> pe_current_step s \<Longrightarrow> pe_current_step s < int (length (pe_plan s)) \<Longrightarrow>
   exec_node (create_plan_execute_agent llm lwt rt) ''executor'' s =
     Inr (s\<lparr>pe_messages := pe_messages s @ [tools_reply (lwt ''executor'' s)],
            pe_current_step := pe_current_step s + 1\<rparr>)"
  by (simp add: exec_node_def create_plan_execute_agent_def executor_node_def apply_update_def
      Let_def py_index_def)

lemma plan_execute_exec_done:
  "pe_current_step s \<ge> int (length (pe_plan s)) \<Longrightarrow>
   exec_node (create_plan_execute_agent llm lwt rt) ''executor'' s =
     Inr (s\<lparr>pe_messages := pe_messages s @ [AIMessage ''All steps completed'' []]\<rparr>)"
  by (simp add: exec_node_def create_plan_execute_agent_def executor_node_def apply_update_def Let_def)

lemma plan_execute_exec_tools:
  "pe_messages s \<noteq> [] \<Longrightarrow> last (pe_messages s) = AIMessage c tcs \<Longrightarrow>
   exec_node (create_plan_execute_agent llm lwt rt) ''tools'' s =
     Inr (s\<lparr>pe_messages := pe_messages s @ map (\<lambda>tc. ToolMessage (rt tc) (tc_id tc)) tcs\<rparr>)"
  by (simp add: exec_node_def create_plan_execute_agent_def plan_execute_tools_def tool_node_def
      last_message_def apply_update_def)

lemma plan_execute_exec_synthesizer:
  "exec_node (create_plan_execute_agent llm lwt rt) ''synthesizer'' s =
     Inr (s\<lparr>pe_messages := pe_messages s @ [plain_reply (llm ''synthesizer'' s)]\<rparr>)"
  by (simp add: exec_node_def create_plan_execute_agent_def plan_execute_synthesizer_node_def apply_update_def)

lemma plan_execute_next_executor:
  "pe_messages s \<noteq> [] \<Longrightarrow>
   next_node (create_plan_execute_agent llm lwt rt) ''executor'' s =
     Inr (if has_tool_calls (last (pe_messages s)) then ''tools''
          else if pe_current_step s \<ge> int (length (pe_plan s)) then ''synthesizer''
          else ''executor'')"
  by (simp add: next_node_def create_plan_execute_agent_def plan_execute_should_continue_def
      last_message_def START_def)

lemma plan_execute_next_fixed:
  "next_node (create_plan_execute_agent llm lwt rt) START s = Inr ''planner''"
  "next_node (create_plan_execute_agent llm lwt rt) ''planner'' s = Inr ''executor''"
  "next_node (create_plan_execute_agent llm lwt rt) ''tools'' s = Inr ''executor''"
  "next_node (create_plan_execute_agent llm lwt rt) ''synthesizer'' s = Inr END"
  by (simp_all add: next_node_def create_plan_execute_agent_def START_def)

lemma tool_results_no_calls:
  "tcs \<noteq> [] \<Longrightarrow> \<not> has_tool_calls (last (ms @ map (\<lambda>tc. ToolMessage (rt tc) (tc_id tc)) tcs))"
  by (simp add: last_map)

text \<open>The run from the synthesizer: one step, then \<^verbatim>\<open>END\<close>.\<close>

lemma plan_execute_run_synthesizer:
  "run (Suc b) (create_plan_execute_agent llm lwt rt) ''synthesizer'' s =
     Done ([(''synthesizer'', s)], s\<lparr>pe_messages := pe_messages s @ [plain_reply (llm ''synthesizer'' s)]\<rparr>)"
  using run_step[where b=b, OF plan_execute_names_not_END(4) plan_execute_exec_synthesizer plan_execute_next_fixed(4)]
  by (simp add: run_END)

lemma executed_steps_Cons:
  "executed_steps ((n, s) # tr) =
     (if n = ''executor'' \<and> pe_current_step s < int (length (pe_plan s))
      then pe_current_step s # executed_steps tr else executed_steps tr)"
  by (simp add: executed_steps_def)

lemma executed_steps_Nil: "executed_steps [] = []"
  by (simp add: executed_steps_def)

lemma upt_int_Cons:
  "0 \<le> i \<Longrightarrow> i < int n \<Longrightarrow> map int [nat i..<n] = i # map int [nat (i + 1)..<n]"
proof -
  assume a: "0 \<le> i" "i < int n"
  then have "nat i < n" by simp
  then have "[nat i..<n] = nat i # [Suc (nat i)..<n]" by (rule upt_conv_Cons)
  moreover have "Suc (nat i) = nat (i + 1)" using a by simp
  ultimately show ?thesis using a by simp
qed

lemma plan_execute_executor_loop:
  "0 \<le> pe_current_step s \<Longrightarrow> pe_current_step s \<le> int (length (pe_plan s)) \<Longrightarrow>
   k = nat (int (length (pe_plan s)) - pe_current_step s) \<Longrightarrow> 2 * k + 2 \<le> b \<Longrightarrow>
   \<exists>tr sy fin. run b (create_plan_execute_agent llm lwt rt) ''executor'' s =
        Done (tr @ [(''synthesizer'', sy)], fin) \<and>
      executed_steps tr = map int [nat (pe_current_step s)..<length (pe_plan s)] \<and>
      pe_current_step sy = int (length (pe_plan s)) \<and>
      pe_plan sy = pe_plan s \<and>
      ''synthesizer'' \<notin> set (node_names tr) \<and>
      ((\<forall>s. snd (lwt ''executor'' s) = []) \<longrightarrow> node_names tr = replicate (max k 1) ''executor'')"
proof (induction k arbitrary: s b)
  case 0
  let ?g = "create_plan_execute_agent llm lwt rt"
  from 0 obtain b' where b: "b = Suc (Suc b')" by (cases b; cases "b - 1") auto
  from 0 have past: "pe_current_step s \<ge> int (length (pe_plan s))" by simp
  let ?s1 = "s\<lparr>pe_messages := pe_messages s @ [AIMessage ''All steps completed'' []]\<rparr>"
  have n1: "next_node ?g ''executor'' ?s1 = Inr ''synthesizer''"
    using past by (simp add: plan_execute_next_executor)
  have r: "run b ?g ''executor'' s =
      Done ([(''executor'', s)] @ [(''synthesizer'', ?s1)],
            ?s1\<lparr>pe_messages := pe_messages ?s1 @ [plain_reply (llm ''synthesizer'' ?s1)]\<rparr>)"
    using run_step[where b="Suc b'", OF plan_execute_names_not_END(2) plan_execute_exec_done[OF past] n1]
      plan_execute_run_synthesizer[where b=b' and llm=llm and lwt=lwt and rt=rt and s="?s1"]
    by (simp add: b)
  have "nat (pe_current_step s) \<ge> length (pe_plan s)" using past by simp
  then have e: "executed_steps [(''executor'', s)] = map int [nat (pe_current_step s)..<length (pe_plan s)]"
    using past by (simp add: executed_steps_Cons executed_steps_Nil)
  show ?case
    apply (rule exI[of _ "[(''executor'', s)]"])
    apply (rule exI[of _ ?s1])
    apply (rule exI)
    using r e 0 by (simp add: node_names_def)
next
  case (Suc k)
  let ?g = "create_plan_execute_agent llm lwt rt"
  let ?n = "length (pe_plan s)"
  from Suc.prems have lt: "pe_current_step s < int ?n" by simp
  let ?s1 = "s\<lparr>pe_messages := pe_messages s @ [tools_reply (lwt ''executor'' s)],
                 pe_current_step := pe_current_step s + 1\<rparr>"
  have e1: "exec_node ?g ''executor'' s = Inr ?s1"
    using plan_execute_exec_step[OF Suc.prems(1) lt] .
  have es: "\<And>tr. executed_steps ((''executor'', s) # tr) = pe_current_step s # executed_steps tr"
    using lt by (simp add: executed_steps_Cons)
  have idx: "map int [nat (pe_current_step s)..<?n] = pe_current_step s # map int [nat (pe_current_step s + 1)..<?n]"
    using upt_int_Cons[OF Suc.prems(1) lt] .
  have k1: "k = nat (int (length (pe_plan ?s1)) - pe_current_step ?s1)" using Suc.prems by simp
  show ?case
  proof (cases "snd (lwt ''executor'' s) = []")
    case False
    then have n1: "next_node ?g ''executor'' ?s1 = Inr ''tools''"
      by (simp add: plan_execute_next_executor tools_reply_def)
    let ?s2 = "?s1\<lparr>pe_messages := pe_messages ?s1 @
        map (\<lambda>tc. ToolMessage (rt tc) (tc_id tc)) (snd (lwt ''executor'' s))\<rparr>"
    have e2: "exec_node ?g ''tools'' ?s1 = Inr ?s2"
      by (rule plan_execute_exec_tools[where c="fst (lwt ''executor'' s)"]) (simp_all add: tools_reply_def)
    from Suc.prems obtain b' where b: "b = Suc (Suc b')" and b': "2 * k + 2 \<le> b'"
      by (cases b; cases "b - 1") auto
    have p2: "0 \<le> pe_current_step ?s2" "pe_current_step ?s2 \<le> int (length (pe_plan ?s2))"
      "k = nat (int (length (pe_plan ?s2)) - pe_current_step ?s2)"
      using Suc.prems by simp_all
    from Suc.IH[OF p2 b'] obtain tr sy fin where
      ih: "run b' ?g ''executor'' ?s2 = Done (tr @ [(''synthesizer'', sy)], fin)"
        "executed_steps tr = map int [nat (pe_current_step ?s2)..<length (pe_plan ?s2)]"
        "pe_current_step sy = int (length (pe_plan ?s2))" "pe_plan sy = pe_plan ?s2"
        "''synthesizer'' \<notin> set (node_names tr)"
      by blast
    have r: "run b ?g ''executor'' s =
        Done (((''executor'', s) # (''tools'', ?s1) # tr) @ [(''synthesizer'', sy)], fin)"
      using run_step[where b="Suc b'", OF plan_execute_names_not_END(2) e1 n1]
        run_step[where b=b', OF plan_execute_names_not_END(3) e2 plan_execute_next_fixed(3)]
        ih(1)
      by (simp add: b)
    have ex: "executed_steps ((''executor'', s) # (''tools'', ?s1) # tr) =
        map int [nat (pe_current_step s)..<?n]"
      using ih(2) lt by (simp add: idx executed_steps_Cons)
    show ?thesis
      apply (rule exI[of _ "(''executor'', s) # (''tools'', ?s1) # tr"])
      apply (rule exI[of _ sy])
      apply (rule exI[of _ fin])
      using r ih ex False by (auto simp: node_names_def)
  next
    case True
    note quiet = True
    show ?thesis
    proof (cases "k = 0")
      case True
      then have past1: "pe_current_step ?s1 \<ge> int (length (pe_plan ?s1))" using Suc.prems by simp
      have n1: "next_node ?g ''executor'' ?s1 = Inr ''synthesizer''"
        using quiet past1 by (simp add: plan_execute_next_executor tools_reply_def)
      from Suc.prems obtain b' where b: "b = Suc (Suc b')" by (cases b; cases "b - 1") auto
      have r: "run b ?g ''executor'' s =
        Done ([(''executor'', s)] @ [(''synthesizer'', ?s1)],
            ?s1\<lparr>pe_messages := pe_messages ?s1 @ [plain_reply (llm ''synthesizer'' ?s1)]\<rparr>)"
        using run_step[where b="Suc b'", OF plan_execute_names_not_END(2) e1 n1]
          plan_execute_run_synthesizer[where b=b' and llm=llm and lwt=lwt and rt=rt and s="?s1"]
        by (simp add: b)
      have "nat (pe_current_step s + 1) \<ge> ?n" using past1 by simp
      then have ex: "executed_steps [(''executor'', s)] = map int [nat (pe_current_step s)..<?n]"
        by (simp add: es idx executed_steps_Nil)
      show ?thesis
        apply (rule exI[of _ "[(''executor'', s)]"])
        apply (rule exI[of _ ?s1])
        apply (rule exI)
        using r ex True past1 lt by (auto simp: node_names_def)
    next
      case False
      then have more: "pe_current_step ?s1 < int (length (pe_plan ?s1))" using Suc.prems by simp
      have n1: "next_node ?g ''executor'' ?s1 = Inr ''executor''"
        using quiet more by (simp add: plan_execute_next_executor tools_reply_def)
      from Suc.prems obtain b' where b: "b = Suc b'" and b': "2 * k + 2 \<le> b'"
        by (cases b) auto
      have p1: "0 \<le> pe_current_step ?s1" "pe_current_step ?s1 \<le> int (length (pe_plan ?s1))"
        using Suc.prems more by simp_all
      from Suc.IH[OF p1 k1 b'] obtain tr sy fin where
        ih: "run b' ?g ''executor'' ?s1 = Done (tr @ [(''synthesizer'', sy)], fin)"
          "executed_steps tr = map int [nat (pe_current_step ?s1)..<length (pe_plan ?s1)]"
          "pe_current_step sy = int (length (pe_plan ?s1))" "pe_plan sy = pe_plan ?s1"
          "''synthesizer'' \<notin> set (node_names tr)"
          "(\<forall>s. snd (lwt ''executor'' s) = []) \<longrightarrow> node_names tr = replicate (max k 1) ''executor''"
        by blast
      have r: "run b ?g ''executor'' s = Done (((''executor'', s) # tr) @ [(''synthesizer'', sy)], fin)"
        using run_step[where b=b', OF plan_execute_names_not_END(2) e1 n1] ih(1)
        by (simp add: b)
      have ex: "executed_steps ((''executor'', s) # tr) = map int [nat (pe_current_step s)..<?n]"
        using ih(2) by (simp add: es idx)
      have mx: "max k 1 = k" "max (Suc k) 1 = Suc k" using False by auto
      show ?thesis
        apply (rule exI[of _ "(''executor'', s) # tr"])
        apply (rule exI[of _ sy])
        apply (rule exI[of _ fin])
        using r ih ex mx by (auto simp: node_names_def)
    qed
  qed
qed


lemma plan_execute_invoke:
  assumes b: "2 * length (parse_plan (llm ''planner'' s0)) + 3 \<le> b"
  shows "\<exists>tr sy fin. invoke b (create_plan_execute_agent llm lwt rt) s0 =
        Done ((''planner'', s0) # tr @ [(''synthesizer'', sy)], fin) \<and>
      executed_steps tr = map int [0..<length (parse_plan (llm ''planner'' s0))] \<and>
      pe_current_step sy = int (length (parse_plan (llm ''planner'' s0))) \<and>
      ''synthesizer'' \<notin> set (node_names tr) \<and>
      ((\<forall>s. snd (lwt ''executor'' s) = []) \<longrightarrow>
         node_names tr = replicate (max (length (parse_plan (llm ''planner'' s0))) 1) ''executor'')"
proof -
  let ?g = "create_plan_execute_agent llm lwt rt"
  let ?plan = "parse_plan (llm ''planner'' s0)"
  let ?s1 = "s0\<lparr>pe_plan := ?plan, pe_current_step := 0, pe_results := [],
            pe_messages := pe_messages s0 @
              [AIMessage (''Created plan with '' @ string_of_nat (length ?plan) @ '' steps'') []]\<rparr>"
  from b obtain b' where bb: "b = Suc b'" and b': "2 * length ?plan + 2 \<le> b'" by (cases b) auto
  have p: "0 \<le> pe_current_step ?s1" "pe_current_step ?s1 \<le> int (length (pe_plan ?s1))"
    "length ?plan = nat (int (length (pe_plan ?s1)) - pe_current_step ?s1)"
    by simp_all
  from plan_execute_executor_loop[where llm=llm and lwt=lwt and rt=rt, OF p b']
  obtain tr sy fin where
    l: "run b' ?g ''executor'' ?s1 = Done (tr @ [(''synthesizer'', sy)], fin)"
       "executed_steps tr = map int [nat (pe_current_step ?s1)..<length (pe_plan ?s1)]"
       "pe_current_step sy = int (length (pe_plan ?s1))"
       "''synthesizer'' \<notin> set (node_names tr)"
       "(\<forall>s. snd (lwt ''executor'' s) = []) \<longrightarrow> node_names tr = replicate (max (length ?plan) 1) ''executor''"
    by blast
  have r: "invoke b ?g s0 = Done ((''planner'', s0) # tr @ [(''synthesizer'', sy)], fin)"
    using run_step[where b=b', OF plan_execute_names_not_END(1) plan_execute_exec_planner plan_execute_next_fixed(2)] l(1)
    by (simp add: invoke_def plan_execute_next_fixed(1) bb)
  show ?thesis
    apply (rule exI[of _ tr])
    apply (rule exI[of _ sy])
    apply (rule exI[of _ fin])
    using r l by simp
qed

lemma four_steps_example:
  "parse_plan (four_step_planner ''planner'' s) =
     [''1. Get price'', ''2. Get history'', ''3. Search reports'', ''4. Synthesize'']"
  by (simp add: parse_plan_def four_step_planner_def py_split_def starts_with_def py_strip_def
      is_space_def is_digit_def)

text \<open>
  Claim C4, as amended. When the planner's plan has 4 steps and the step budget is at
  least 11, the run ends. Before control reaches the synthesizer, the executor runs that
  execute a plan step are exactly four, for the indices 0, 1, 2, 3 in this order,
  re-entries from the tools node included: a re-entry after one of the first three steps
  executes the next step, a re-entry after the last step executes none. The
  synthesizer runs once, last, and \<^verbatim>\<open>current_step\<close> is 4 when it runs. When the executor
  requests no tools, the executor runs exactly 4 times.
\<close>

theorem four_step_plan_execution:
  assumes four: "length (parse_plan (llm ''planner'' s0)) = 4" and budget: "11 \<le> budget"
  shows "\<exists>tr sy fin. invoke budget (create_plan_execute_agent llm llm_with_tools run_tool) s0 =
        Done ((''planner'', s0) # tr @ [(''synthesizer'', sy)], fin) \<and>
      executed_steps tr = [0, 1, 2, 3] \<and>
      pe_current_step sy = 4 \<and>
      ''synthesizer'' \<notin> set (node_names tr) \<and>
      ((\<forall>s. snd (llm_with_tools ''executor'' s) = []) \<longrightarrow>
         node_names tr = [''executor'', ''executor'', ''executor'', ''executor''])"
proof -
  have b: "2 * length (parse_plan (llm ''planner'' s0)) + 3 \<le> budget" using four budget by simp
  have u: "map int [0..<4] = [0, 1, 2, 3]" by (simp add: upt_rec)
  have m: "replicate (max 4 1) ''executor'' = [''executor'', ''executor'', ''executor'', ''executor'']"
    by (simp add: eval_nat_numeral)
  from plan_execute_invoke[where llm=llm and lwt=llm_with_tools and rt=run_tool, OF b]
  show ?thesis unfolding four u m by simp
qed

theorem four_step_plan_witness:
  "length (parse_plan (four_step_planner ''planner'' (plan_execute_initial ''Analyze AAPL''))) = 4 \<and>
   (\<exists>tr sy fin. invoke 25 (create_plan_execute_agent four_step_planner tools_on_first_step mock_tool)
        (plan_execute_initial ''Analyze AAPL'') =
        Done ((''planner'', plan_execute_initial ''Analyze AAPL'') # tr @ [(''synthesizer'', sy)], fin) \<and>
      executed_steps tr = [0, 1, 2, 3] \<and> pe_current_step sy = 4)"
proof -
  have four: "length (parse_plan (four_step_planner ''planner'' (plan_execute_initial ''Analyze AAPL''))) = 4"
    by (simp add: four_steps_example)
  have budget: "(11::nat) \<le> 25" by simp
  from four_step_plan_execution[where llm=four_step_planner and llm_with_tools=tools_on_first_step
      and run_tool=mock_tool, OF four budget] four
  show ?thesis by blast
qed

text \<open>
  The claim as stated fails when one of the first three steps requests tools. When only
  the first step does,
  three executor runs are not re-entries from the tools node. When every step does, the
  executor runs five times, and one of these runs is not a re-entry.
\<close>

theorem four_step_plan_counterexample:
  "length (parse_plan (four_step_planner ''planner'' (plan_execute_initial ''Analyze AAPL''))) = 4 \<and>
   run_names (invoke 25 (create_plan_execute_agent four_step_planner tools_on_first_step mock_tool)
       (plan_execute_initial ''Analyze AAPL'')) =
     Some [''planner'', ''executor'', ''tools'', ''executor'', ''executor'', ''executor'', ''synthesizer''] \<and>
   fresh_entries START
     [''planner'', ''executor'', ''tools'', ''executor'', ''executor'', ''executor'', ''synthesizer''] = 3 \<and>
   run_names (invoke 25 (create_plan_execute_agent four_step_planner asks_for_price mock_tool)
       (plan_execute_initial ''Analyze AAPL'')) =
     Some [''planner'', ''executor'', ''tools'', ''executor'', ''tools'', ''executor'', ''tools'',
           ''executor'', ''tools'', ''executor'', ''synthesizer''] \<and>
   count_list [''planner'', ''executor'', ''tools'', ''executor'', ''tools'', ''executor'', ''tools'',
           ''executor'', ''tools'', ''executor'', ''synthesizer''] ''executor'' = 5 \<and>
   fresh_entries START
     [''planner'', ''executor'', ''tools'', ''executor'', ''tools'', ''executor'', ''tools'',
      ''executor'', ''tools'', ''executor'', ''synthesizer''] = 1"
  by code_simp

lemma plan_execute_step_nonneg:
  "exec_node (create_plan_execute_agent llm lwt rt) n s = Inr s' \<Longrightarrow>
   n = ''planner'' \<or> 0 \<le> pe_current_step s \<Longrightarrow> 0 \<le> pe_current_step s'"
  by (auto simp: exec_node_def create_plan_execute_agent_def planner_node_def executor_node_def
      plan_execute_tools_def plan_execute_synthesizer_node_def apply_update_def Let_def
      split: if_splits sum.splits)

lemma plan_execute_reachable_nonneg:
  "reachable (create_plan_execute_agent llm lwt rt) s0 n s \<Longrightarrow> n = ''planner'' \<or> 0 \<le> pe_current_step s"
proof (induction rule: reachable.induct)
  case (reach_start n)
  then show ?case by (simp add: plan_execute_next_fixed(1))
next
  case (reach_step n s s' d)
  then show ?case using plan_execute_step_nonneg by blast
qed

text \<open>
  Claim C9. In a run of the Plan-Execute graph, every executor run given
  \<^verbatim>\<open>current_step < len(plan)\<close> returns the update that sets \<^verbatim>\<open>current_step\<close> to its old value
  plus 1. When the reply requests tools, the run goes through the tools node back to the
  executor, and that re-entry is given the next index: the step that requested the tools
  is not executed again. In the whole run each plan index is executed once.
\<close>

theorem executor_advances_on_every_entry:
  assumes r: "reachable (create_plan_execute_agent llm llm_with_tools run_tool) s0 ''executor'' s"
    and lt: "pe_current_step s < int (length (pe_plan s))"
  shows "executor_node llm_with_tools s =
       Inr [PeMessages [tools_reply (llm_with_tools ''executor'' s)], PeCurrentStep (pe_current_step s + 1)] \<and>
     (\<exists>s'. exec_node (create_plan_execute_agent llm llm_with_tools run_tool) ''executor'' s = Inr s' \<and>
        pe_current_step s' = pe_current_step s + 1 \<and> pe_plan s' = pe_plan s \<and>
        (has_tool_calls (tools_reply (llm_with_tools ''executor'' s)) \<longrightarrow>
           next_node (create_plan_execute_agent llm llm_with_tools run_tool) ''executor'' s' = Inr ''tools'' \<and>
           (\<exists>s''. exec_node (create_plan_execute_agent llm llm_with_tools run_tool) ''tools'' s' = Inr s'' \<and>
              next_node (create_plan_execute_agent llm llm_with_tools run_tool) ''tools'' s'' = Inr ''executor'' \<and>
              reachable (create_plan_execute_agent llm llm_with_tools run_tool) s0 ''executor'' s'' \<and>
              pe_current_step s'' = pe_current_step s + 1 \<and> pe_plan s'' = pe_plan s))) \<and>
     (2 * length (parse_plan (llm ''planner'' s0)) + 3 \<le> budget \<longrightarrow>
        (\<exists>tr sy fin. invoke budget (create_plan_execute_agent llm llm_with_tools run_tool) s0 =
            Done ((''planner'', s0) # tr @ [(''synthesizer'', sy)], fin) \<and>
          executed_steps tr = map int [0..<length (parse_plan (llm ''planner'' s0))] \<and>
          distinct (executed_steps tr)))"
proof (intro conjI)
  let ?g = "create_plan_execute_agent llm llm_with_tools run_tool"
  have nn: "0 \<le> pe_current_step s" using plan_execute_reachable_nonneg[OF r] by simp
  show "executor_node llm_with_tools s =
       Inr [PeMessages [tools_reply (llm_with_tools ''executor'' s)], PeCurrentStep (pe_current_step s + 1)]"
    using nn lt by (simp add: executor_node_def py_index_def Let_def)
  let ?s1 = "s\<lparr>pe_messages := pe_messages s @ [tools_reply (llm_with_tools ''executor'' s)],
                 pe_current_step := pe_current_step s + 1\<rparr>"
  have e1: "exec_node ?g ''executor'' s = Inr ?s1" using plan_execute_exec_step[OF nn lt] .
  have tools: "has_tool_calls (tools_reply (llm_with_tools ''executor'' s)) \<longrightarrow>
           next_node ?g ''executor'' ?s1 = Inr ''tools'' \<and>
           (\<exists>s''. exec_node ?g ''tools'' ?s1 = Inr s'' \<and>
              next_node ?g ''tools'' s'' = Inr ''executor'' \<and>
              reachable ?g s0 ''executor'' s'' \<and>
              pe_current_step s'' = pe_current_step s + 1 \<and> pe_plan s'' = pe_plan s)"
  proof
    assume h: "has_tool_calls (tools_reply (llm_with_tools ''executor'' s))"
    then have n1: "next_node ?g ''executor'' ?s1 = Inr ''tools''"
      by (simp add: plan_execute_next_executor)
    let ?s2 = "?s1\<lparr>pe_messages := pe_messages ?s1 @
        map (\<lambda>tc. ToolMessage (run_tool tc) (tc_id tc)) (snd (llm_with_tools ''executor'' s))\<rparr>"
    have e2: "exec_node ?g ''tools'' ?s1 = Inr ?s2"
      by (rule plan_execute_exec_tools[where c="fst (llm_with_tools ''executor'' s)"])
        (simp_all add: tools_reply_def)
    have r1: "reachable ?g s0 ''tools'' ?s1" using reach_step[OF r e1 n1] .
    have r2: "reachable ?g s0 ''executor'' ?s2" using reach_step[OF r1 e2 plan_execute_next_fixed(3)] .
    show "next_node ?g ''executor'' ?s1 = Inr ''tools'' \<and>
           (\<exists>s''. exec_node ?g ''tools'' ?s1 = Inr s'' \<and>
              next_node ?g ''tools'' s'' = Inr ''executor'' \<and>
              reachable ?g s0 ''executor'' s'' \<and>
              pe_current_step s'' = pe_current_step s + 1 \<and> pe_plan s'' = pe_plan s)"
      using n1 e2 r2 by (simp add: plan_execute_next_fixed(3))
  qed
  show "\<exists>s'. exec_node ?g ''executor'' s = Inr s' \<and>
        pe_current_step s' = pe_current_step s + 1 \<and> pe_plan s' = pe_plan s \<and>
        (has_tool_calls (tools_reply (llm_with_tools ''executor'' s)) \<longrightarrow>
           next_node ?g ''executor'' s' = Inr ''tools'' \<and>
           (\<exists>s''. exec_node ?g ''tools'' s' = Inr s'' \<and>
              next_node ?g ''tools'' s'' = Inr ''executor'' \<and>
              reachable ?g s0 ''executor'' s'' \<and>
              pe_current_step s'' = pe_current_step s + 1 \<and> pe_plan s'' = pe_plan s))"
    apply (rule exI[of _ ?s1])
    using e1 tools by simp
  show "2 * length (parse_plan (llm ''planner'' s0)) + 3 \<le> budget \<longrightarrow>
        (\<exists>tr sy fin. invoke budget ?g s0 =
            Done ((''planner'', s0) # tr @ [(''synthesizer'', sy)], fin) \<and>
          executed_steps tr = map int [0..<length (parse_plan (llm ''planner'' s0))] \<and>
          distinct (executed_steps tr))"
  proof
    assume b: "2 * length (parse_plan (llm ''planner'' s0)) + 3 \<le> budget"
    from plan_execute_invoke[where llm=llm and lwt=llm_with_tools and rt=run_tool, OF b]
    obtain tr sy fin where
      i: "invoke budget ?g s0 = Done ((''planner'', s0) # tr @ [(''synthesizer'', sy)], fin)"
         "executed_steps tr = map int [0..<length (parse_plan (llm ''planner'' s0))]"
      by blast
    have "distinct (map int [0..<length (parse_plan (llm ''planner'' s0))])"
      by (simp add: distinct_map)
    with i show "\<exists>tr sy fin. invoke budget ?g s0 =
            Done ((''planner'', s0) # tr @ [(''synthesizer'', sy)], fin) \<and>
          executed_steps tr = map int [0..<length (parse_plan (llm ''planner'' s0))] \<and>
          distinct (executed_steps tr)"
      by auto
  qed
qed


theorem executor_advances_witness:
  "\<exists>s1. reachable (create_plan_execute_agent four_step_planner tools_on_first_step mock_tool)
          (plan_execute_initial ''Analyze AAPL'') ''executor'' s1 \<and>
        pe_current_step s1 = 0 \<and> length (pe_plan s1) = 4 \<and>
        (\<exists>s'. exec_node (create_plan_execute_agent four_step_planner tools_on_first_step mock_tool)
                ''executor'' s1 = Inr s' \<and>
              pe_current_step s' = 1 \<and>
              (\<exists>s''. exec_node (create_plan_execute_agent four_step_planner tools_on_first_step mock_tool)
                       ''tools'' s' = Inr s'' \<and>
                     reachable (create_plan_execute_agent four_step_planner tools_on_first_step mock_tool)
                       (plan_execute_initial ''Analyze AAPL'') ''executor'' s'' \<and>
                     pe_current_step s'' = 1))"
proof -
  let ?g = "create_plan_execute_agent four_step_planner tools_on_first_step mock_tool"
  let ?s0 = "plan_execute_initial ''Analyze AAPL''"
  let ?plan = "parse_plan (four_step_planner ''planner'' ?s0)"
  let ?s1 = "?s0\<lparr>pe_plan := ?plan, pe_current_step := 0, pe_results := [],
            pe_messages := pe_messages ?s0 @
              [AIMessage (''Created plan with '' @ string_of_nat (length ?plan) @ '' steps'') []]\<rparr>"
  have r0: "reachable ?g ?s0 ''planner'' ?s0"
    by (rule reach_start) (rule plan_execute_next_fixed(1))
  have r: "reachable ?g ?s0 ''executor'' ?s1"
    using reach_step[OF r0 plan_execute_exec_planner plan_execute_next_fixed(2)] .
  have len: "length (pe_plan ?s1) = 4" by (simp add: four_steps_example)
  have lt: "pe_current_step ?s1 < int (length (pe_plan ?s1))" by (simp add: four_steps_example)
  have tc: "has_tool_calls (tools_reply (tools_on_first_step ''executor'' ?s1))"
    by (simp add: tools_on_first_step_def tools_reply_def)
  from executor_advances_on_every_entry[OF r lt, of 25] tc
  obtain s' s'' where
    "exec_node ?g ''executor'' ?s1 = Inr s'" "pe_current_step s' = pe_current_step ?s1 + 1"
    "exec_node ?g ''tools'' s' = Inr s''" "reachable ?g ?s0 ''executor'' s''"
    "pe_current_step s'' = pe_current_step ?s1 + 1"
    by blast
  then show ?thesis
    apply -
    apply (rule exI[of _ ?s1])
    using r len by auto
qed

section \<open>Multi-Agent: routing\<close>

lemma multi_agent_next_START:
  "next_node (create_multi_agent_system llm lwt ru rt) START s = Inr ''supervisor''"
  by (simp add: next_node_def create_multi_agent_system_def)

lemma multi_agent_next_tools:
  "next_node (create_multi_agent_system llm lwt ru rt) ''tools'' s = Inr ''supervisor''"
  by (simp add: next_node_def create_multi_agent_system_def START_def)

lemma route_to_agent_plain:
  "ma_messages s \<noteq> [] \<Longrightarrow> \<not> has_tool_calls (last (ma_messages s)) \<Longrightarrow>
   route_to_agent s =
     Inr (if ''synthesizer'' \<in> set (get_completed s) then ''end''
          else (case ma_next_agent s of None \<Rightarrow> ''supervisor'' | Some a \<Rightarrow> a))"
  by (simp add: route_to_agent_def last_message_def)

lemma data_collector_valid: "''data_collector'' \<in> set valid_agents"
  by (simp add: valid_agents_def)

lemma supervisor_not_valid: "''supervisor'' \<notin> set valid_agents"
  by (simp add: valid_agents_def)

text \<open>What each node of the graph does to the fields the router reads.\<close>

lemma multi_agent_exec_cases:
  assumes "exec_node (create_multi_agent_system llm lwt ru rt) n s = Inr s'"
  shows "(n = ''supervisor'' \<and> get_completed s' = get_completed s \<and> ma_messages s' \<noteq> [] \<and>
            \<not> has_tool_calls (last (ma_messages s')) \<and>
            (\<exists>a \<in> set valid_agents. ma_next_agent s' = Some a)) \<or>
         (n = ''synthesizer'' \<and> get_completed s' = get_completed s @ [''synthesizer''] \<and>
            ma_messages s' \<noteq> [] \<and> \<not> has_tool_calls (last (ma_messages s')) \<and>
            ma_next_agent s' = ma_next_agent s) \<or>
         (n \<in> {''data_collector'', ''technical_analyst'', ''research_analyst'', ''risk_assessor''} \<and>
            get_completed s' = get_completed s @ [n] \<and> ma_messages s' \<noteq> [] \<and>
            ma_next_agent s' = ma_next_agent s) \<or>
         (n = ''tools'' \<and> get_completed s' = get_completed s \<and> ma_next_agent s' = ma_next_agent s)"
  using assms data_collector_valid
  by (auto simp: exec_node_def create_multi_agent_system_def supervisor_node_def
      data_collector_node_def technical_analyst_node_def research_analyst_node_def
      risk_assessor_node_def synthesizer_node_def multi_agent_tools_def apply_update_def
      get_completed_def plain_reply_def Let_def
      split: if_splits sum.splits)


lemma multi_agent_next_routed:
  assumes "n \<in> {''data_collector'', ''technical_analyst'', ''research_analyst'', ''risk_assessor'', ''synthesizer''}"
  shows "next_node (create_multi_agent_system llm lwt ru rt) n s =
     (case route_to_agent s of
        Inl e \<Rightarrow> Inl e
      | Inr k \<Rightarrow> (case map_of [(''supervisor'', ''supervisor''), (''tools'', ''tools''), (''end'', END)] k of
                    None \<Rightarrow> Inl (InvalidRouteError k) | Some d \<Rightarrow> Inr d))"
  using assms
  by (auto simp: next_node_def create_multi_agent_system_def specialist_edge_def START_def)

lemma multi_agent_next_supervisor_end:
  "route_to_agent s = Inr ''end'' \<Longrightarrow>
   next_node (create_multi_agent_system llm lwt ru rt) ''supervisor'' s = Inr END"
  by (simp add: next_node_def create_multi_agent_system_def START_def)

lemma multi_agent_next_specialist_end:
  assumes "n \<in> {''data_collector'', ''technical_analyst'', ''research_analyst'', ''risk_assessor'', ''synthesizer''}"
    and "route_to_agent s = Inr ''end''"
  shows "next_node (create_multi_agent_system llm lwt ru rt) n s = Inr END"
  using assms(2) by (simp add: multi_agent_next_routed[OF assms(1)])

text \<open>
  Once the synthesizer is recorded as completed, the only node that may still be about to
  run is the supervisor (when the caller's state already listed the synthesizer).
\<close>

lemma synthesizer_completed_invariant:
  "reachable (create_multi_agent_system llm lwt ru rt) s0 n s \<Longrightarrow>
   ''synthesizer'' \<in> set (get_completed s) \<Longrightarrow> n = ''supervisor'' \<or> n = END"
proof (induction rule: reachable.induct)
  case (reach_start n)
  then show ?case by (simp add: multi_agent_next_START)
next
  case (reach_step n s s' d)
  let ?g = "create_multi_agent_system llm lwt ru rt"
  from multi_agent_exec_cases[OF reach_step.hyps(2)] show ?case
  proof (elim disjE conjE)
    assume sup: "n = ''supervisor''" "ma_messages s' \<noteq> []" "\<not> has_tool_calls (last (ma_messages s'))"
    then have "route_to_agent s' = Inr ''end''"
      using reach_step.prems by (simp add: route_to_agent_plain)
    then show ?thesis
      using reach_step.hyps(3) sup(1) by (simp add: multi_agent_next_supervisor_end)
  next
    assume syn: "n = ''synthesizer''" "ma_messages s' \<noteq> []" "\<not> has_tool_calls (last (ma_messages s'))"
    then have e: "route_to_agent s' = Inr ''end''"
      using reach_step.prems by (simp add: route_to_agent_plain)
    have "next_node ?g n s' = Inr END"
      by (rule multi_agent_next_specialist_end[OF _ e]) (simp add: syn(1))
    then show ?thesis using reach_step.hyps(3) by simp
  next
    assume spec: "n \<in> {''data_collector'', ''technical_analyst'', ''research_analyst'', ''risk_assessor''}"
      "get_completed s' = get_completed s @ [n]"
    then have "n \<noteq> ''synthesizer''" by auto
    then have "''synthesizer'' \<in> set (get_completed s)" using reach_step.prems spec(2) by simp
    then have "n = ''supervisor'' \<or> n = END" by (rule reach_step.IH)
    with spec(1) show ?thesis by (auto simp: END_def)
  next
    assume "n = ''tools''"
    then show ?thesis using reach_step.hyps(3) by (simp add: multi_agent_next_tools)
  qed
qed

text \<open>
  Claim C5. In a run of the Supervisor graph from any initial state, whenever a node has
  run and the synthesizer is in the completed list of the resulting state, the router
  returns \<^verbatim>\<open>end\<close> and the next node is \<^verbatim>\<open>END\<close>, whatever \<^verbatim>\<open>next_agent\<close> names. The router looks
  at pending tool requests first, but in such a state none is pending: the node that ran
  is the supervisor or the synthesizer, and both call the oracle without the tool
  catalogue.
\<close>

theorem synthesizer_completed_ends_run:
  assumes r: "reachable (create_multi_agent_system llm llm_with_tools random_uniform run_tool) s0 n s"
    and e: "exec_node (create_multi_agent_system llm llm_with_tools random_uniform run_tool) n s = Inr s'"
    and c: "''synthesizer'' \<in> set (get_completed s')"
  shows "route_to_agent s' = Inr ''end'' \<and>
     next_node (create_multi_agent_system llm llm_with_tools random_uniform run_tool) n s' = Inr END"
proof -
  let ?g = "create_multi_agent_system llm llm_with_tools random_uniform run_tool"
  from multi_agent_exec_cases[OF e] show ?thesis
  proof (elim disjE conjE)
    assume sup: "n = ''supervisor''" "ma_messages s' \<noteq> []" "\<not> has_tool_calls (last (ma_messages s'))"
    then have "route_to_agent s' = Inr ''end''" using c by (simp add: route_to_agent_plain)
    then show ?thesis using sup(1) by (simp add: multi_agent_next_supervisor_end)
  next
    assume syn: "n = ''synthesizer''" "ma_messages s' \<noteq> []" "\<not> has_tool_calls (last (ma_messages s'))"
    then have e: "route_to_agent s' = Inr ''end''" using c by (simp add: route_to_agent_plain)
    have "next_node ?g n s' = Inr END"
      by (rule multi_agent_next_specialist_end[OF _ e]) (simp add: syn(1))
    with e show ?thesis by simp
  next
    assume spec: "n \<in> {''data_collector'', ''technical_analyst'', ''research_analyst'', ''risk_assessor''}"
      "get_completed s' = get_completed s @ [n]"
    then have "n \<noteq> ''synthesizer''" by auto
    then have "''synthesizer'' \<in> set (get_completed s)" using c spec(2) by simp
    then have "n = ''supervisor'' \<or> n = END" by (rule synthesizer_completed_invariant[OF r])
    with spec(1) show ?thesis by (auto simp: END_def)
  next
    assume tools: "n = ''tools''" "get_completed s' = get_completed s"
    then have "''synthesizer'' \<in> set (get_completed s)" using c by simp
    then have "n = ''supervisor'' \<or> n = END" by (rule synthesizer_completed_invariant[OF r])
    with tools(1) show ?thesis by (auto simp: END_def)
  qed
qed


lemma multi_agent_exec_supervisor:
  "exec_node (create_multi_agent_system llm lwt ru rt) ''supervisor'' s =
     Inr (s\<lparr>ma_next_agent := Some (if py_lower (py_strip (llm ''supervisor'' s)) \<notin> set valid_agents
                                     then ''data_collector'' else py_lower (py_strip (llm ''supervisor'' s))),
            ma_messages := ma_messages s @ [plain_reply (llm ''supervisor'' s)]\<rparr>)"
  by (simp add: exec_node_def create_multi_agent_system_def supervisor_node_def apply_update_def Let_def)

lemma multi_agent_exec_data_collector:
  "exec_node (create_multi_agent_system llm lwt ru rt) ''data_collector'' s =
     Inr (s\<lparr>ma_messages := ma_messages s @ [tools_reply (lwt ''data_collector'' s)],
            ma_completed_agents := Some (get_completed s @ [''data_collector'']),
            ma_findings := Some (AList.update ''data_collection'' ''Stock data gathered'' (get_findings s))\<rparr>)"
  by (simp add: exec_node_def create_multi_agent_system_def data_collector_node_def apply_update_def Let_def)

lemma multi_agent_exec_synthesizer:
  "exec_node (create_multi_agent_system llm lwt ru rt) ''synthesizer'' s =
     Inr (s\<lparr>ma_messages := ma_messages s @ [plain_reply (llm ''synthesizer'' s)],
            ma_completed_agents := Some (get_completed s @ [''synthesizer''])\<rparr>)"
  by (simp add: exec_node_def create_multi_agent_system_def synthesizer_node_def apply_update_def Let_def)

lemma multi_agent_next_supervisor:
  "ma_messages s \<noteq> [] \<Longrightarrow> \<not> has_tool_calls (last (ma_messages s)) \<Longrightarrow>
   ''synthesizer'' \<notin> set (get_completed s) \<Longrightarrow> ma_next_agent s = Some a \<Longrightarrow> a \<in> set valid_agents \<Longrightarrow>
   next_node (create_multi_agent_system llm lwt ru rt) ''supervisor'' s = Inr a"
  by (auto simp: next_node_def create_multi_agent_system_def START_def route_to_agent_plain valid_agents_def)

lemma picks_examples:
  "py_lower (py_strip (picks ''synthesizer'' ''supervisor'' s)) = ''synthesizer''"
  "py_lower (py_strip (picks ''data_collector'' ''supervisor'' s)) = ''data_collector''"
  by (simp_all add: picks_def py_lower_def lower_char_def py_strip_def is_space_def)

lemma valid_examples: "''synthesizer'' \<in> set valid_agents"
  by (simp add: valid_agents_def)

theorem synthesizer_completed_witness:
  "(\<exists>s1 s2. reachable (create_multi_agent_system (picks ''synthesizer'') answers_plainly fixed_confidence mock_tool)
         (multi_agent_initial ''Analyze AAPL'') ''synthesizer'' s1 \<and>
       exec_node (create_multi_agent_system (picks ''synthesizer'') answers_plainly fixed_confidence mock_tool)
         ''synthesizer'' s1 = Inr s2 \<and>
       ''synthesizer'' \<in> set (get_completed s2) \<and>
       route_to_agent s2 = Inr ''end'') \<and>
   (\<exists>s1. exec_node (create_multi_agent_system (picks ''data_collector'') answers_plainly fixed_confidence mock_tool)
         ''supervisor'' ((multi_agent_initial ''Analyze AAPL'')\<lparr>ma_completed_agents := Some [''synthesizer'']\<rparr>) = Inr s1 \<and>
       ma_next_agent s1 = Some ''data_collector'' \<and>
       route_to_agent s1 = Inr ''end'')"
proof (rule conjI)
  let ?g = "create_multi_agent_system (picks ''synthesizer'') answers_plainly fixed_confidence mock_tool"
  let ?s0 = "multi_agent_initial ''Analyze AAPL''"
  let ?s1 = "?s0\<lparr>ma_next_agent := Some ''synthesizer'',
            ma_messages := ma_messages ?s0 @ [plain_reply (picks ''synthesizer'' ''supervisor'' ?s0)]\<rparr>"
  let ?s2 = "?s1\<lparr>ma_messages := ma_messages ?s1 @ [plain_reply (picks ''synthesizer'' ''synthesizer'' ?s1)],
            ma_completed_agents := Some (get_completed ?s1 @ [''synthesizer''])\<rparr>"
  have e1: "exec_node ?g ''supervisor'' ?s0 = Inr ?s1"
    by (simp add: multi_agent_exec_supervisor picks_examples valid_examples)
  have n1: "next_node ?g ''supervisor'' ?s1 = Inr ''synthesizer''"
    by (rule multi_agent_next_supervisor)
      (simp_all add: plain_reply_def multi_agent_initial_def get_completed_def valid_examples)
  have r0: "reachable ?g ?s0 ''supervisor'' ?s0"
    by (rule reach_start) (rule multi_agent_next_START)
  have r1: "reachable ?g ?s0 ''synthesizer'' ?s1" using reach_step[OF r0 e1 n1] .
  have e2: "exec_node ?g ''synthesizer'' ?s1 = Inr ?s2" by (rule multi_agent_exec_synthesizer)
  have c2: "''synthesizer'' \<in> set (get_completed ?s2)" by (simp add: get_completed_def)
  from synthesizer_completed_ends_run[OF r1 e2 c2] r1 e2 c2
  show "\<exists>s1 s2. reachable ?g ?s0 ''synthesizer'' s1 \<and> exec_node ?g ''synthesizer'' s1 = Inr s2 \<and>
       ''synthesizer'' \<in> set (get_completed s2) \<and> route_to_agent s2 = Inr ''end''"
    by blast
next
  let ?g = "create_multi_agent_system (picks ''data_collector'') answers_plainly fixed_confidence mock_tool"
  let ?s0 = "(multi_agent_initial ''Analyze AAPL'')\<lparr>ma_completed_agents := Some [''synthesizer'']\<rparr>"
  let ?s1 = "?s0\<lparr>ma_next_agent := Some ''data_collector'',
            ma_messages := ma_messages ?s0 @ [plain_reply (picks ''data_collector'' ''supervisor'' ?s0)]\<rparr>"
  have e1: "exec_node ?g ''supervisor'' ?s0 = Inr ?s1"
    by (simp add: multi_agent_exec_supervisor picks_examples data_collector_valid)
  have r0: "reachable ?g ?s0 ''supervisor'' ?s0"
    by (rule reach_start) (rule multi_agent_next_START)
  have c1: "''synthesizer'' \<in> set (get_completed ?s1)" by (simp add: get_completed_def)
  have "ma_next_agent ?s1 = Some ''data_collector''" by simp
  with synthesizer_completed_ends_run[OF r0 e1 c1] e1
  show "\<exists>s1. exec_node ?g ''supervisor'' ?s0 = Inr s1 \<and> ma_next_agent s1 = Some ''data_collector'' \<and>
       route_to_agent s1 = Inr ''end''"
    by blast
qed

text \<open>After the supervisor has run, \<^verbatim>\<open>next_agent\<close> names a specialist, and no other node changes it.\<close>

lemma next_agent_invariant:
  "reachable (create_multi_agent_system llm lwt ru rt) s0 n s \<Longrightarrow>
   n = ''supervisor'' \<or> (\<exists>a \<in> set valid_agents. ma_next_agent s = Some a)"
proof (induction rule: reachable.induct)
  case (reach_start n)
  then show ?case by (simp add: multi_agent_next_START)
next
  case (reach_step n s s' d)
  from multi_agent_exec_cases[OF reach_step.hyps(2)]
  have "\<exists>a \<in> set valid_agents. ma_next_agent s' = Some a"
  proof (elim disjE conjE)
    assume "\<exists>a \<in> set valid_agents. ma_next_agent s' = Some a"
    then show ?thesis .
  next
    assume a: "n = ''synthesizer''" "ma_next_agent s' = ma_next_agent s"
    with reach_step.IH show ?thesis by simp
  next
    assume a: "n \<in> {''data_collector'', ''technical_analyst'', ''research_analyst'', ''risk_assessor''}"
      "ma_next_agent s' = ma_next_agent s"
    then have "n \<noteq> ''supervisor''" by auto
    with reach_step.IH a(2) show ?thesis by simp
  next
    assume a: "n = ''tools''" "ma_next_agent s' = ma_next_agent s"
    with reach_step.IH show ?thesis by simp
  qed
  then show ?case by simp
qed

lemma specialist_never_routes_to_supervisor:
  assumes r: "reachable (create_multi_agent_system llm lwt ru rt) s0 n s"
    and n: "n \<in> {''data_collector'', ''technical_analyst'', ''research_analyst'', ''risk_assessor'', ''synthesizer''}"
    and e: "exec_node (create_multi_agent_system llm lwt ru rt) n s = Inr s'"
  shows "route_to_agent s' \<noteq> Inr ''supervisor''"
proof -
  from n have "n \<noteq> ''supervisor''" by auto
  with next_agent_invariant[OF r] obtain a where a: "a \<in> set valid_agents" "ma_next_agent s = Some a"
    by auto
  from n have "n \<noteq> ''tools''" by auto
  with multi_agent_exec_cases[OF e] \<open>n \<noteq> ''supervisor''\<close> have "ma_next_agent s' = ma_next_agent s"
    by auto
  with a have "ma_next_agent s' = Some a" by simp
  moreover have "a \<noteq> ''supervisor''" using a(1) supervisor_not_valid by auto
  ultimately show ?thesis
    by (auto simp: route_to_agent_def split: sum.splits if_splits)
qed


text \<open>
  Claim C1 is not what the code does, against the code's own comment (all specialist
  agents return to the supervisor) and the mapping of the specialists' conditional edge,
  which offers \<^verbatim>\<open>supervisor\<close>. The router returns \<^verbatim>\<open>next_agent\<close>, and the supervisor node has set
  it to the name of the specialist. In the run evaluated here the supervisor picks the data
  collector, the data collector answers without a tool request and the synthesizer is not
  completed: the router returns \<^verbatim>\<open>data_collector\<close>, the mapping does not hold it, and the run
  stops with an error instead of returning to the supervisor.
\<close>

theorem data_collector_routes_to_itself:
  "(\<exists>s1 s2.
      exec_node (create_multi_agent_system (picks ''data_collector'') answers_plainly fixed_confidence mock_tool)
        ''supervisor'' (multi_agent_initial ''Analyze AAPL'') = Inr s1 \<and>
      next_node (create_multi_agent_system (picks ''data_collector'') answers_plainly fixed_confidence mock_tool)
        ''supervisor'' s1 = Inr ''data_collector'' \<and>
      exec_node (create_multi_agent_system (picks ''data_collector'') answers_plainly fixed_confidence mock_tool)
        ''data_collector'' s1 = Inr s2 \<and>
      get_completed s2 = [''data_collector''] \<and>
      \<not> has_tool_calls (last (ma_messages s2)) \<and>
      route_to_agent s2 = Inr ''data_collector'' \<and>
      next_node (create_multi_agent_system (picks ''data_collector'') answers_plainly fixed_confidence mock_tool)
        ''data_collector'' s2 = Inl (InvalidRouteError ''data_collector'')) \<and>
   invoke 25 (create_multi_agent_system (picks ''data_collector'') answers_plainly fixed_confidence mock_tool)
     (multi_agent_initial ''Analyze AAPL'') = Crashed (InvalidRouteError ''data_collector'')"
proof (rule conjI)
  let ?g = "create_multi_agent_system (picks ''data_collector'') answers_plainly fixed_confidence mock_tool"
  let ?s0 = "multi_agent_initial ''Analyze AAPL''"
  let ?s1 = "?s0\<lparr>ma_next_agent := Some ''data_collector'',
            ma_messages := ma_messages ?s0 @ [plain_reply (picks ''data_collector'' ''supervisor'' ?s0)]\<rparr>"
  let ?s2 = "?s1\<lparr>ma_messages := ma_messages ?s1 @ [tools_reply (answers_plainly ''data_collector'' ?s1)],
            ma_completed_agents := Some (get_completed ?s1 @ [''data_collector'']),
            ma_findings := Some (AList.update ''data_collection'' ''Stock data gathered'' (get_findings ?s1))\<rparr>"
  have e1: "exec_node ?g ''supervisor'' ?s0 = Inr ?s1"
    by (simp add: multi_agent_exec_supervisor picks_examples data_collector_valid)
  have n1: "next_node ?g ''supervisor'' ?s1 = Inr ''data_collector''"
    by (rule multi_agent_next_supervisor)
      (simp_all add: plain_reply_def multi_agent_initial_def get_completed_def data_collector_valid)
  have e2: "exec_node ?g ''data_collector'' ?s1 = Inr ?s2" by (rule multi_agent_exec_data_collector)
  have c2: "get_completed ?s2 = [''data_collector'']"
    by (simp add: get_completed_def multi_agent_initial_def)
  have t2: "\<not> has_tool_calls (last (ma_messages ?s2))"
    by (simp add: tools_reply_def answers_plainly_def)
  have r2: "route_to_agent ?s2 = Inr ''data_collector''"
    using t2 c2 by (simp add: route_to_agent_plain)
  have n2: "next_node ?g ''data_collector'' ?s2 = Inl (InvalidRouteError ''data_collector'')"
    using r2 by (simp add: multi_agent_next_routed END_def)
  show "\<exists>s1 s2. exec_node ?g ''supervisor'' ?s0 = Inr s1 \<and>
      next_node ?g ''supervisor'' s1 = Inr ''data_collector'' \<and>
      exec_node ?g ''data_collector'' s1 = Inr s2 \<and>
      get_completed s2 = [''data_collector''] \<and>
      \<not> has_tool_calls (last (ma_messages s2)) \<and>
      route_to_agent s2 = Inr ''data_collector'' \<and>
      next_node ?g ''data_collector'' s2 = Inl (InvalidRouteError ''data_collector'')"
    apply (rule exI[of _ ?s1])
    apply (rule exI[of _ ?s2])
    using e1 n1 e2 c2 t2 r2 n2 by simp
next
  show "invoke 25 (create_multi_agent_system (picks ''data_collector'') answers_plainly fixed_confidence mock_tool)
     (multi_agent_initial ''Analyze AAPL'') = Crashed (InvalidRouteError ''data_collector'')"
    by code_simp
qed

section \<open>Multi-Agent: the state a specialist is given\<close>

lemma deref_initial:
  "deref initial_store (initial_refs q) = multi_agent_initial q"
  by (simp add: deref_def initial_store_def initial_refs_def multi_agent_initial_def list_at_def dict_at_def)

text \<open>
  Claim C7 is not what the code does for the specialist nodes. Given the initial state,
  the data collector appends its name to the list the state holds and sets its entry in
  the dictionary the state holds, and returns these same objects: read again after the
  node has run, the state that was passed in has \<^verbatim>\<open>completed_agents = ["data_collector"]\<close> and
  a finding, where it had none. The synthesizer changes the list in the same way. The
  nodes of the other patterns and the supervisor node build new values.
\<close>

theorem specialists_change_the_input_state:
  "ma_completed_agents (deref initial_store (initial_refs ''Analyze AAPL'')) = Some [] \<and>
   ma_findings (deref initial_store (initial_refs ''Analyze AAPL'')) = Some [] \<and>
   (\<exists>st upd. data_collector_node_store answers_plainly initial_store (initial_refs ''Analyze AAPL'') =
        Inr (st, upd) \<and>
      upd = [RefMessages [AIMessage ''AAPL looks fairly valued'' []], RefCompletedAgents 0, RefFindings 1] \<and>
      ma_completed_agents (deref st (initial_refs ''Analyze AAPL'')) = Some [''data_collector''] \<and>
      ma_findings (deref st (initial_refs ''Analyze AAPL'')) =
        Some [(''data_collection'', ''Stock data gathered'')]) \<and>
   (\<exists>st upd. synthesizer_node_store (picks ''synthesizer'') initial_store (initial_refs ''Analyze AAPL'') =
        Inr (st, upd) \<and>
      upd = [RefMessages [AIMessage ''Recommendation: hold'' []], RefCompletedAgents 0] \<and>
      ma_completed_agents (deref st (initial_refs ''Analyze AAPL'')) = Some [''synthesizer''])"
  by (simp add: deref_def initial_store_def initial_refs_def list_at_def dict_at_def
      data_collector_node_store_def synthesizer_node_store_def get_or_new_def list_append_def
      dict_setitem_def tools_reply_def plain_reply_def answers_plainly_def picks_def Let_def)

text \<open>
  The store model agrees with the value model of the nodes: read through the store the
  node leaves, the update it returns is the update of the value model.
\<close>

lemma data_collector_store_value:
  assumes "data_collector_node_store lwt st r = Inr (st', upd)"
    and "\<forall>a. ref_completed_agents r = Some a \<longrightarrow> a < next_free st"
    and "\<forall>a. ref_findings r = Some a \<longrightarrow> a < next_free st"
  shows "data_collector_node lwt (deref st r) = Inr (map (deref_field st') upd)"
  using assms
  by (auto simp: data_collector_node_store_def data_collector_node_def get_or_new_def alloc_def
      list_append_def dict_setitem_def deref_def list_at_def dict_at_def get_completed_def
      get_findings_def Let_def
      split: option.splits py_object.splits prod.splits if_splits)

lemma data_collector_changes_input:
  assumes "data_collector_node_store lwt st r = Inr (st', upd)"
    and "ref_completed_agents r = Some a" and "a < next_free st"
  shows "ma_completed_agents (deref st' r) \<noteq> ma_completed_agents (deref st r)"
  using assms
  by (auto simp: data_collector_node_store_def get_or_new_def alloc_def
      list_append_def dict_setitem_def deref_def list_at_def dict_at_def Let_def
      split: option.splits py_object.splits prod.splits if_splits)

end
